theory Spec2Isabelle
  imports Complex_Main
begin

section \<open>Event schema (common/schema.py)\<close>

text \<open>
  Python floats are modelled as \<open>real\<close> and \<open>datetime\<close> values as the number of
  seconds since the epoch, also a \<open>real\<close>. Every read of \<open>datetime.utcnow()\<close> is an
  explicit clock parameter \<open>utcnow\<close> of the function that reads it.
\<close>

datatype FinalityTier = TIER1 | TIER2 | TIER3

fun FinalityTier_value :: "FinalityTier \<Rightarrow> string" where
  "FinalityTier_value TIER1 = ''tier1''"
| "FinalityTier_value TIER2 = ''tier2''"
| "FinalityTier_value TIER3 = ''tier3''"

datatype WindowState = OPEN | PROVISIONAL | FINAL

fun WindowState_value :: "WindowState \<Rightarrow> string" where
  "WindowState_value OPEN = ''OPEN''"
| "WindowState_value PROVISIONAL = ''PROVISIONAL''"
| "WindowState_value FINAL = ''FINAL''"

record ConfidenceBreakdown =
  cb_finality_weight :: real
  cb_chain_confidence :: real
  cb_completeness :: real
  cb_staleness_penalty :: real
  cb_temporal_confidence :: real

record RiskEvent =
  event_id :: string
  timestamp :: real
  coin :: string
  chain :: string
  source :: string
  price :: "real option"
  volume :: "real option"
  liquidity_depth :: "real option"
  net_supply_change :: "real option"
  market_volatility :: "real option"
  sentiment_score :: "real option"
  block_number :: "int option"
  tx_hash :: "string option"
  confirmation_count :: int
  finality_tier :: string
  is_finalized :: bool
  finality_timestamp :: "real option"
  temporal_confidence :: real
  window_id :: string
  window_state :: string
  window_start :: "real option"
  window_end :: "real option"
  event_version :: int
  invalidated :: bool
  replacement_event_id :: "string option"
  reorg_detected_at :: "real option"
  original_block_number :: "int option"
  is_outlier :: bool
  quality_score :: real

text \<open>
  The dataclass defaults. \<open>event_id\<close> (a fresh uuid) and \<open>timestamp\<close> (the clock)
  come from default factories, so they are parameters here.
\<close>

definition new_RiskEvent :: "string \<Rightarrow> real \<Rightarrow> RiskEvent" where
  "new_RiskEvent eid ts =
     \<lparr> event_id = eid, timestamp = ts, coin = '''', chain = '''', source = '''',
       price = None, volume = None, liquidity_depth = None, net_supply_change = None,
       market_volatility = None, sentiment_score = None,
       block_number = None, tx_hash = None, confirmation_count = 0,
       finality_tier = FinalityTier_value TIER1, is_finalized = False,
       finality_timestamp = None, temporal_confidence = 0.3,
       window_id = '''', window_state = WindowState_value OPEN,
       window_start = None, window_end = None,
       event_version = 1, invalidated = False, replacement_event_id = None,
       reorg_detected_at = None, original_block_number = None,
       is_outlier = False, quality_score = 1 \<rparr>"

text \<open>\<open>RiskEvent.get_confidence_tier_value\<close>: \<open>tier_map.get(self.finality_tier, 0.0)\<close>.\<close>

definition tier_map :: "(string \<times> real) list" where
  "tier_map = [(FinalityTier_value TIER1, 0.3), (FinalityTier_value TIER2, 0.8),
               (FinalityTier_value TIER3, 1.0)]"

definition get_confidence_tier_value :: "RiskEvent \<Rightarrow> real" where
  "get_confidence_tier_value e =
     (case map_of tier_map (finality_tier e) of None \<Rightarrow> 0 | Some v \<Rightarrow> v)"

section \<open>TCS calculator (layer1_core/tcs/calculator.py)\<close>

text \<open>
  The calculator is modelled over the reals. Python accumulates the weighted sums in
  floating point, so that a value which is 4/5 here can be 0.7999999999999999 there; the
  statements below about computed scores are strict comparisons with a margin, or values
  that floating point represents exactly.
\<close>

text \<open>The entries of \<open>config.TCS_CONFIG\<close> the calculator reads.\<close>

definition expected_sources :: "string list" where
  "expected_sources = [''price'', ''liquidity'', ''supply'', ''volatility'', ''sentiment'']"

definition source_importance :: "(string \<times> real) list" where
  "source_importance = [(''price'', 1.0), (''liquidity'', 0.8), (''supply'', 0.9),
                        (''volatility'', 0.7), (''sentiment'', 0.5)]"

definition threshold_fresh :: real where "threshold_fresh = 300"
definition threshold_acceptable :: real where "threshold_acceptable = 600"

text \<open>\<open>_infer_source_type\<close>; the last branch is \<open>event.source or None\<close>.\<close>

definition infer_source_type :: "RiskEvent \<Rightarrow> string option" where
  "infer_source_type e =
     (if price e \<noteq> None then Some ''price''
      else if liquidity_depth e \<noteq> None then Some ''liquidity''
      else if net_supply_change e \<noteq> None then Some ''supply''
      else if market_volatility e \<noteq> None then Some ''volatility''
      else if sentiment_score e \<noteq> None then Some ''sentiment''
      else if source e = [] then None else Some (source e))"

text \<open>\<open>self.source_importance.get(source_type, 1.0)\<close>, where the key may be \<open>None\<close>.\<close>

definition importance_of :: "string option \<Rightarrow> real" where
  "importance_of st =
     (case st of None \<Rightarrow> 1
      | Some s \<Rightarrow> (case map_of source_importance s of None \<Rightarrow> 1 | Some w \<Rightarrow> w))"

text \<open>\<open>_calculate_finality_weight\<close>: the loop keeps the pair (weighted_sum, total_importance).\<close>

definition finality_weight_step :: "RiskEvent \<Rightarrow> real \<times> real \<Rightarrow> real \<times> real" where
  "finality_weight_step e acc =
     (let finality_conf = get_confidence_tier_value e;
          importance = importance_of (infer_source_type e)
      in (fst acc + finality_conf * importance, snd acc + importance))"

definition calculate_finality_weight :: "RiskEvent list \<Rightarrow> real" where
  "calculate_finality_weight evs =
     (if evs = [] then 0
      else let acc = fold finality_weight_step evs (0, 0)
           in if snd acc = 0 then 0 else fst acc / snd acc)"

text \<open>
  \<open>_calculate_chain_confidence\<close>: the dict \<open>chain_finalities\<close> is an association list in
  insertion order; \<open>chain_finalities_put\<close> is the body of the loop.
\<close>

fun chain_finalities_put :: "string \<Rightarrow> real \<Rightarrow> (string \<times> real) list \<Rightarrow> (string \<times> real) list" where
  "chain_finalities_put k v [] = [(k, v)]"
| "chain_finalities_put k v ((k', v') # d) =
     (if k' = k then (k', min v' v) # d else (k', v') # chain_finalities_put k v d)"

definition chain_finalities_of :: "RiskEvent list \<Rightarrow> (string \<times> real) list" where
  "chain_finalities_of evs =
     fold (\<lambda>e d. chain_finalities_put (chain e) (get_confidence_tier_value e) d) evs []"

definition calculate_chain_confidence :: "RiskEvent list \<Rightarrow> real" where
  "calculate_chain_confidence evs =
     (if evs = [] then 0
      else let d = chain_finalities_of evs
           in if d = [] then 0 else min_list (map snd d))"

text \<open>
  \<open>_calculate_completeness\<close>: \<open>present_sources\<close> is a set, kept as a duplicate-free list;
  \<open>if source_type:\<close> skips \<open>None\<close> and the empty string.
\<close>

definition present_sources :: "RiskEvent list \<Rightarrow> string list" where
  "present_sources evs =
     fold (\<lambda>e acc. case infer_source_type e of
                      None \<Rightarrow> acc
                    | Some s \<Rightarrow> if s = [] then acc else List.insert s acc) evs []"

definition calculate_completeness :: "RiskEvent list \<Rightarrow> real" where
  "calculate_completeness evs =
     (if evs = [] then 0
      else real (length (present_sources evs)) / real (length (remdups expected_sources)))"

text \<open>
  \<open>_calculate_staleness_penalty\<close>: \<open>min(events, key=...)\<close> returns the first event with
  the least timestamp.
\<close>

fun oldest_event :: "RiskEvent \<Rightarrow> RiskEvent list \<Rightarrow> RiskEvent" where
  "oldest_event m [] = m"
| "oldest_event m (e # es) = oldest_event (if timestamp e < timestamp m then e else m) es"

definition calculate_staleness_penalty :: "RiskEvent list \<Rightarrow> real \<Rightarrow> real" where
  "calculate_staleness_penalty evs reference_time =
     (case evs of
        [] \<Rightarrow> 1
      | e # es \<Rightarrow>
          (let age_sec = reference_time - timestamp (oldest_event e es)
           in if age_sec < threshold_fresh then 1.0
              else if age_sec < threshold_acceptable then 0.9
              else 0.7))"

text \<open>
  \<open>calculate_tcs(events, timestamp=None)\<close>; \<open>timestamp or datetime.utcnow()\<close> reads the
  clock only when no reference time is given.
\<close>

definition calculate_tcs :: "real \<Rightarrow> RiskEvent list \<Rightarrow> real option \<Rightarrow> ConfidenceBreakdown" where
  "calculate_tcs utcnow evs ts_opt =
     (if evs = [] then
        \<lparr> cb_finality_weight = 0, cb_chain_confidence = 0, cb_completeness = 0,
          cb_staleness_penalty = 1, cb_temporal_confidence = 0 \<rparr>
      else
        let ts = (case ts_opt of None \<Rightarrow> utcnow | Some t \<Rightarrow> t);
            fw = calculate_finality_weight evs;
            cc = calculate_chain_confidence evs;
            co = calculate_completeness evs;
            sp = calculate_staleness_penalty evs ts;
            tc = (fw * cc * co) / sp
        in \<lparr> cb_finality_weight = fw, cb_chain_confidence = cc, cb_completeness = co,
             cb_staleness_penalty = sp,
             cb_temporal_confidence = max 0 (min 1 tc) \<rparr>)"


section \<open>Chain profiles (common/config.py)\<close>

record ChainConfig =
  name :: string
  block_time_ms :: int
  tier1_confirmations :: int
  tier2_confirmations :: int
  tier3_confirmations :: int
  tier1_time_sec :: int
  tier2_time_sec :: int
  tier3_time_sec :: int
  max_reorg_depth :: int

definition ethereum_config :: ChainConfig where
  "ethereum_config =
     \<lparr> name = ''ethereum'', block_time_ms = 12000,
       tier1_confirmations = 1, tier2_confirmations = 32, tier3_confirmations = 64,
       tier1_time_sec = 12, tier2_time_sec = 384, tier3_time_sec = 768,
       max_reorg_depth = 64 \<rparr>"

definition arbitrum_config :: ChainConfig where
  "arbitrum_config =
     \<lparr> name = ''arbitrum'', block_time_ms = 250,
       tier1_confirmations = 1, tier2_confirmations = 50, tier3_confirmations = 256,
       tier1_time_sec = 1, tier2_time_sec = 13, tier3_time_sec = 900,
       max_reorg_depth = 256 \<rparr>"

definition solana_config :: ChainConfig where
  "solana_config =
     \<lparr> name = ''solana'', block_time_ms = 400,
       tier1_confirmations = 1, tier2_confirmations = 32, tier3_confirmations = 300,
       tier1_time_sec = 1, tier2_time_sec = 13, tier3_time_sec = 120,
       max_reorg_depth = 300 \<rparr>"

text \<open>\<open>config.COINS[coin].depeg_threshold\<close>: the three configured coins keep the default.\<close>

definition depeg_threshold_of :: "string \<Rightarrow> real option" where
  "depeg_threshold_of c = (if c \<in> set [''USDC'', ''USDT'', ''DAI''] then Some 0.02 else None)"

definition provisional_delay_sec :: real where "provisional_delay_sec = 60"
definition finalization_delay_sec :: real where "finalization_delay_sec = 900"

section \<open>Finality tracker (layer1_core/finality/tracker.py)\<close>

text \<open>
  A tracker is its chain profile and the two abstract RPC methods. An RPC call that raises
  is the value \<open>None\<close>: \<open>update_event_finality\<close> catches every exception and returns the
  event as it is.
\<close>

record FinalityTracker =
  chain_config :: ChainConfig
  get_current_block_number :: "int option"
  check_block_exists :: "int \<Rightarrow> bool option"

definition calculate_finality_tier :: "ChainConfig \<Rightarrow> int \<Rightarrow> FinalityTier" where
  "calculate_finality_tier cfg confirmations =
     (if confirmations \<ge> tier3_confirmations cfg then TIER3
      else if confirmations \<ge> tier2_confirmations cfg then TIER2
      else TIER1)"

fun get_finality_confidence :: "FinalityTier \<Rightarrow> real" where
  "get_finality_confidence TIER1 = 0.3"
| "get_finality_confidence TIER2 = 0.8"
| "get_finality_confidence TIER3 = 1.0"

definition update_offchain_finality :: "ChainConfig \<Rightarrow> real \<Rightarrow> RiskEvent \<Rightarrow> RiskEvent" where
  "update_offchain_finality cfg utcnow e =
     (let age = utcnow - timestamp e
      in if age \<ge> real_of_int (tier3_time_sec cfg) then
           e\<lparr> finality_tier := FinalityTier_value TIER3, temporal_confidence := 1.0,
              is_finalized := True,
              finality_timestamp :=
                (if finality_timestamp e = None then Some utcnow else finality_timestamp e) \<rparr>
         else if age \<ge> real_of_int (tier2_time_sec cfg) then
           e\<lparr> finality_tier := FinalityTier_value TIER2, temporal_confidence := 0.8 \<rparr>
         else
           e\<lparr> finality_tier := FinalityTier_value TIER1, temporal_confidence := 0.3 \<rparr>)"

definition update_event_finality :: "FinalityTracker \<Rightarrow> real \<Rightarrow> RiskEvent \<Rightarrow> RiskEvent" where
  "update_event_finality tr utcnow e =
     (case block_number e of
        None \<Rightarrow> update_offchain_finality (chain_config tr) utcnow e
      | Some bn \<Rightarrow>
          (case get_current_block_number tr of
             None \<Rightarrow> e
           | Some current_block \<Rightarrow>
               (let confirmations = max 0 (current_block - bn + 1)
                in case check_block_exists tr bn of
                     None \<Rightarrow> e
                   | Some block_exists \<Rightarrow>
                       if \<not> block_exists then
                         e\<lparr> invalidated := True, reorg_detected_at := Some utcnow,
                            original_block_number := Some bn \<rparr>
                       else
                         (let tier = calculate_finality_tier (chain_config tr) confirmations;
                              e1 = e\<lparr> confirmation_count := confirmations,
                                      finality_tier := FinalityTier_value tier,
                                      temporal_confidence := get_finality_confidence tier \<rparr>
                          in if tier = TIER3 \<and> \<not> is_finalized e1
                             then e1\<lparr> is_finalized := True, finality_timestamp := Some utcnow \<rparr>
                             else e1))))"

text \<open>\<open>FinalityTrackerRegistry\<close>: a dict from chain name to tracker.\<close>

type_synonym FinalityTrackerRegistry = "string \<Rightarrow> FinalityTracker option"

definition registry_update_event_finality ::
    "FinalityTrackerRegistry \<Rightarrow> real \<Rightarrow> RiskEvent \<Rightarrow> RiskEvent" where
  "registry_update_event_finality trackers utcnow e =
     (case trackers (chain e) of
        None \<Rightarrow> e
      | Some tracker \<Rightarrow> update_event_finality tracker utcnow e)"


section \<open>Aggregated snapshot (common/schema.py)\<close>

text \<open>
  \<open>confidence_breakdown\<close> is a dict from component name to value, kept as an
  association list. The \<open>snapshot_id\<close> (a fresh uuid) is left out. \<open>list(set(...))\<close> is
  the duplicate-free list of the values, in an order Python does not fix.
\<close>

record AggregatedRiskSnapshot =
  snap_timestamp :: real
  snap_coin :: string
  snap_chains :: "string list"
  snap_window_id :: string
  snap_window_state :: string
  avg_price :: "real option"
  min_price :: "real option"
  max_price :: "real option"
  total_liquidity :: "real option"
  total_volume :: "real option"
  snap_net_supply_change :: "real option"
  snap_market_volatility :: "real option"
  snap_sentiment_score :: "real option"
  snap_temporal_confidence :: real
  confidence_breakdown :: "(string \<times> real) list option"
  num_events_aggregated :: nat
  sources_included :: "string list"
  event_ids :: "string list"
  is_depegged :: bool
  depeg_severity :: "real option"

definition new_AggregatedRiskSnapshot :: "real \<Rightarrow> AggregatedRiskSnapshot" where
  "new_AggregatedRiskSnapshot ts =
     \<lparr> snap_timestamp = ts, snap_coin = '''', snap_chains = [], snap_window_id = '''',
       snap_window_state = WindowState_value OPEN,
       avg_price = None, min_price = None, max_price = None,
       total_liquidity = None, total_volume = None, snap_net_supply_change = None,
       snap_market_volatility = None, snap_sentiment_score = None,
       snap_temporal_confidence = 0, confidence_breakdown = None,
       num_events_aggregated = 0, sources_included = [], event_ids = [],
       is_depegged = False, depeg_severity = None \<rparr>"

text \<open>The guarded aggregates \<open>f(xs) if xs else None\<close>.\<close>

definition avg_opt :: "real list \<Rightarrow> real option" where
  "avg_opt xs = (if xs = [] then None else Some (sum_list xs / real (length xs)))"

definition sum_opt :: "real list \<Rightarrow> real option" where
  "sum_opt xs = (if xs = [] then None else Some (sum_list xs))"

definition min_opt :: "real list \<Rightarrow> real option" where
  "min_opt xs = (if xs = [] then None else Some (min_list xs))"

definition max_opt :: "real list \<Rightarrow> real option" where
  "max_opt xs = (case xs of [] \<Rightarrow> None | x # r \<Rightarrow> Some (fold max r x))"

section \<open>Window state machine (layer1_core/pipeline/window_manager.py)\<close>

record TimeWindow =
  tw_window_id :: string
  tw_window_start :: real
  tw_window_end :: real
  state :: WindowState
  events :: "RiskEvent list"
  opened_at :: real
  closed_at :: "real option"
  provisional_at :: "real option"
  finalized_at :: "real option"
  snapshot :: "AggregatedRiskSnapshot option"

definition new_TimeWindow :: "real \<Rightarrow> string \<Rightarrow> real \<Rightarrow> real \<Rightarrow> TimeWindow" where
  "new_TimeWindow utcnow wid wstart wend =
     \<lparr> tw_window_id = wid, tw_window_start = wstart, tw_window_end = wend,
       state = OPEN, events = [], opened_at = utcnow, closed_at = None,
       provisional_at = None, finalized_at = None, snapshot = None \<rparr>"

definition add_event :: "TimeWindow \<Rightarrow> RiskEvent \<Rightarrow> TimeWindow" where
  "add_event w e =
     (if state w \<noteq> OPEN then w
      else w\<lparr> events := events w @
                 [e\<lparr> window_id := tw_window_id w,
                     window_state := WindowState_value (state w),
                     window_start := Some (tw_window_start w),
                     window_end := Some (tw_window_end w) \<rparr>] \<rparr>)"

definition is_expired :: "TimeWindow \<Rightarrow> real \<Rightarrow> bool" where
  "is_expired w current_time = (current_time \<ge> tw_window_end w)"

definition can_transition_to_provisional :: "TimeWindow \<Rightarrow> real \<Rightarrow> bool" where
  "can_transition_to_provisional w current_time =
     (if state w \<noteq> OPEN then False
      else if \<not> is_expired w current_time then False
      else current_time \<ge> tw_window_end w + provisional_delay_sec)"

definition can_transition_to_final :: "TimeWindow \<Rightarrow> real \<Rightarrow> bool" where
  "can_transition_to_final w current_time =
     (if state w \<noteq> PROVISIONAL then False
      else current_time \<ge> tw_window_end w + finalization_delay_sec)"

definition all_events_finalized :: "TimeWindow \<Rightarrow> bool" where
  "all_events_finalized w =
     (if events w = [] then True
      else list_all (\<lambda>e. is_finalized e \<or> invalidated e) (events w))"

definition transition_to_provisional :: "real \<Rightarrow> TimeWindow \<Rightarrow> TimeWindow" where
  "transition_to_provisional utcnow w =
     w\<lparr> state := PROVISIONAL, closed_at := Some utcnow, provisional_at := Some utcnow,
        events := map (\<lambda>e. e\<lparr> window_state := WindowState_value PROVISIONAL \<rparr>) (events w) \<rparr>"

definition generate_snapshot :: "real \<Rightarrow> TimeWindow \<Rightarrow> AggregatedRiskSnapshot" where
  "generate_snapshot utcnow w =
     (let valid_events = filter (\<lambda>e. \<not> invalidated e) (events w)
      in case valid_events of
           [] \<Rightarrow> (new_AggregatedRiskSnapshot utcnow)
                   \<lparr> snap_window_id := tw_window_id w,
                     snap_window_state := WindowState_value FINAL \<rparr>
         | e0 # _ \<Rightarrow>
             (let coin0 = coin e0;
                  prices = List.map_filter price valid_events;
                  avg = avg_opt prices;
                  tcs_breakdown = calculate_tcs utcnow valid_events None;
                  depeg = (case avg of
                             None \<Rightarrow> (False, None)
                           | Some a \<Rightarrow>
                               (let depeg_distance = \<bar>a - 1\<bar>
                                in case depeg_threshold_of coin0 of
                                     None \<Rightarrow> (False, None)
                                   | Some th \<Rightarrow> (depeg_distance \<ge> th, Some depeg_distance)))
              in \<lparr> snap_timestamp = utcnow, snap_coin = coin0,
                   snap_chains = remdups (map chain valid_events),
                   snap_window_id = tw_window_id w,
                   snap_window_state = WindowState_value FINAL,
                   avg_price = avg, min_price = min_opt prices, max_price = max_opt prices,
                   total_liquidity = sum_opt (List.map_filter liquidity_depth valid_events),
                   total_volume = sum_opt (List.map_filter volume valid_events),
                   snap_net_supply_change =
                     sum_opt (List.map_filter net_supply_change valid_events),
                   snap_market_volatility =
                     max_opt (List.map_filter market_volatility valid_events),
                   snap_sentiment_score =
                     avg_opt (List.map_filter sentiment_score valid_events),
                   snap_temporal_confidence = cb_temporal_confidence tcs_breakdown,
                   confidence_breakdown = Some
                     [(''finality_weight'', cb_finality_weight tcs_breakdown),
                      (''chain_confidence'', cb_chain_confidence tcs_breakdown),
                      (''completeness'', cb_completeness tcs_breakdown),
                      (''staleness_penalty'', cb_staleness_penalty tcs_breakdown)],
                   num_events_aggregated = length valid_events,
                   sources_included = remdups (map source valid_events),
                   event_ids = map event_id valid_events,
                   is_depegged = fst depeg, depeg_severity = snd depeg \<rparr>))"

definition transition_to_final :: "real \<Rightarrow> TimeWindow \<Rightarrow> TimeWindow" where
  "transition_to_final utcnow w =
     (let w1 = w\<lparr> state := FINAL, finalized_at := Some utcnow,
                  events := map (\<lambda>e. e\<lparr> window_state := WindowState_value FINAL \<rparr>) (events w) \<rparr>
      in w1\<lparr> snapshot := Some (generate_snapshot utcnow w1) \<rparr>)"

text \<open>
  \<open>_update_window_finality\<close>: one refresh per event that is neither finalized nor
  invalidated; \<open>gather\<close> swallows what a refresh raises.
\<close>

definition update_window_finality ::
    "FinalityTrackerRegistry \<Rightarrow> real \<Rightarrow> TimeWindow \<Rightarrow> TimeWindow" where
  "update_window_finality trackers utcnow w =
     w\<lparr> events := map (\<lambda>e. if \<not> is_finalized e \<and> \<not> invalidated e
                             then registry_update_event_finality trackers utcnow e
                             else e) (events w) \<rparr>"

definition process_window ::
    "FinalityTrackerRegistry \<Rightarrow> real \<Rightarrow> TimeWindow \<Rightarrow> real \<Rightarrow> TimeWindow" where
  "process_window trackers utcnow w current_time =
     (let w1 = (if can_transition_to_provisional w current_time
                then transition_to_provisional utcnow w else w);
          w2 = (if state w1 = PROVISIONAL
                then update_window_finality trackers utcnow w1 else w1)
      in if can_transition_to_final w2 current_time
         then (if all_events_finalized w2 then transition_to_final utcnow w2 else w2)
         else w2)"

text \<open>
  The life of one window: events are offered to it and the scheduler ticks, each tick
  with its own trackers, clock and \<open>current_time\<close>.
\<close>

datatype WindowOp =
    AddEvent RiskEvent
  | Tick FinalityTrackerRegistry real real

fun apply_window_op :: "TimeWindow \<Rightarrow> WindowOp \<Rightarrow> TimeWindow" where
  "apply_window_op w (AddEvent e) = add_event w e"
| "apply_window_op w (Tick trackers utcnow current_time) =
     process_window trackers utcnow w current_time"

definition run_window :: "TimeWindow \<Rightarrow> WindowOp list \<Rightarrow> TimeWindow" where
  "run_window w ops = fold (\<lambda>op w'. apply_window_op w' op) ops w"

section \<open>Cross-chain aggregator (layer3_multichain/cross_chain/aggregator.py)\<close>

text \<open>
  \<open>events_by_chain\<close> is a dict from chain name to the events of that chain, an
  association list in the dict's order.
\<close>

definition cross_chain_confidence :: "(string \<times> RiskEvent list) list \<Rightarrow> real" where
  "cross_chain_confidence events_by_chain =
     (let chain_confidences =
            map (\<lambda>(c, evs). min_list (map get_confidence_tier_value evs))
                (filter (\<lambda>(c, evs). evs \<noteq> []) events_by_chain)
      in if chain_confidences = [] then 0 else min_list chain_confidences)"

definition aggregate_cross_chain ::
    "real \<Rightarrow> (string \<times> RiskEvent list) list \<Rightarrow> string \<Rightarrow> string \<Rightarrow>
     AggregatedRiskSnapshot option" where
  "aggregate_cross_chain utcnow events_by_chain wid coin0 =
     (if events_by_chain = [] then None
      else
        let all_events = concat (map snd events_by_chain)
        in if all_events = [] then None
           else
             let tcs_breakdown = calculate_tcs utcnow all_events None;
                 chain_confidence = cross_chain_confidence events_by_chain;
                 adjusted_tcs = cb_temporal_confidence tcs_breakdown * chain_confidence;
                 prices = List.map_filter price all_events;
                 avg = avg_opt prices;
                 depeg = (case avg of
                            None \<Rightarrow> (False, None)
                          | Some a \<Rightarrow>
                              if a = 0 then (False, None)
                              else
                                (let depeg_distance = \<bar>a - 1\<bar>
                                 in case depeg_threshold_of coin0 of
                                      None \<Rightarrow> (False, None)
                                    | Some th \<Rightarrow> (depeg_distance \<ge> th, Some depeg_distance)))
             in Some
                  \<lparr> snap_timestamp = utcnow, snap_coin = coin0,
                    snap_chains = map fst events_by_chain,
                    snap_window_id = wid,
                    snap_window_state = WindowState_value PROVISIONAL,
                    avg_price = avg, min_price = min_opt prices, max_price = max_opt prices,
                    total_liquidity = sum_opt (List.map_filter liquidity_depth all_events),
                    total_volume = sum_opt (List.map_filter volume all_events),
                    snap_net_supply_change =
                      sum_opt (List.map_filter net_supply_change all_events),
                    snap_market_volatility =
                      max_opt (List.map_filter market_volatility all_events),
                    snap_sentiment_score =
                      avg_opt (List.map_filter sentiment_score all_events),
                    snap_temporal_confidence = adjusted_tcs,
                    confidence_breakdown = Some
                      [(''finality_weight'', cb_finality_weight tcs_breakdown),
                       (''chain_confidence'', chain_confidence),
                       (''completeness'', cb_completeness tcs_breakdown),
                       (''staleness_penalty'', cb_staleness_penalty tcs_breakdown),
                       (''adjusted_tcs'', adjusted_tcs)],
                    num_events_aggregated = length all_events,
                    sources_included = remdups (map source all_events),
                    event_ids = map event_id all_events,
                    is_depegged = fst depeg, depeg_severity = snd depeg \<rparr>)"

section \<open>Reorg handler (layer3_multichain/reorg_handler/handler.py)\<close>

record ReorgEvent =
  re_chain :: string
  re_timestamp :: real
  original_block :: "int option"
  new_block :: "int option"
  depth :: nat
  affected_events :: "string list"

text \<open>
  The handler's state: the reorg log per chain (a dict with the three chain names as its
  only keys) and the version counter per \<open>event_id\<close>.
\<close>

record ReorgHandler =
  reorg_history :: "(string \<times> ReorgEvent list) list"
  event_versions :: "string \<rightharpoonup> int"

definition new_ReorgHandler :: ReorgHandler where
  "new_ReorgHandler =
     \<lparr> reorg_history = [(''ethereum'', []), (''arbitrum'', []), (''solana'', [])],
       event_versions = Map.empty \<rparr>"

datatype py_error = KeyError

fun find_replacement_event :: "RiskEvent \<Rightarrow> RiskEvent list \<Rightarrow> RiskEvent option" where
  "find_replacement_event old_event [] = None"
| "find_replacement_event old_event (new_event # rest) =
     (if coin new_event = coin old_event \<and> source new_event = source old_event
         \<and> \<bar>timestamp new_event - timestamp old_event\<bar> < 60
      then Some new_event
      else find_replacement_event old_event rest)"

text \<open>
  \<open>_create_correction_event\<close> bumps the counter of the handler and builds the correction
  with the dataclass defaults for every field it does not pass.
\<close>

definition create_correction_event ::
    "(string \<rightharpoonup> int) \<Rightarrow> RiskEvent \<Rightarrow> RiskEvent \<Rightarrow> (string \<rightharpoonup> int) \<times> RiskEvent" where
  "create_correction_event versions old_event new_event =
     (let current_version = (case versions (event_id old_event) of None \<Rightarrow> 1 | Some v \<Rightarrow> v);
          new_version = current_version + 1
      in (versions(event_id old_event \<mapsto> new_version),
          (new_RiskEvent (event_id old_event) (timestamp new_event))
            \<lparr> event_version := new_version,
              coin := coin new_event, chain := chain new_event, source := source new_event,
              price := price new_event, volume := volume new_event,
              liquidity_depth := liquidity_depth new_event,
              net_supply_change := net_supply_change new_event,
              market_volatility := market_volatility new_event,
              sentiment_score := sentiment_score new_event,
              block_number := block_number new_event, tx_hash := tx_hash new_event,
              confirmation_count := confirmation_count new_event,
              finality_tier := finality_tier new_event,
              is_finalized := False,
              invalidated := False,
              original_block_number := block_number old_event \<rparr>))"

text \<open>
  The loop of \<open>handle_reorg\<close>: it returns the counters, the affected events as the loop
  leaves them (they are mutated in place) and the corrections, in order.
\<close>

fun handle_reorg_loop ::
    "real \<Rightarrow> RiskEvent list option \<Rightarrow> (string \<rightharpoonup> int) \<Rightarrow> RiskEvent list \<Rightarrow>
     (string \<rightharpoonup> int) \<times> RiskEvent list \<times> RiskEvent list" where
  "handle_reorg_loop utcnow new_events versions [] = (versions, [], [])"
| "handle_reorg_loop utcnow new_events versions (old_event # rest) =
     (let old1 = old_event\<lparr> invalidated := True, reorg_detected_at := Some utcnow \<rparr>;
          replacement =
            (case new_events of
               None \<Rightarrow> None
             | Some ns \<Rightarrow> if ns = [] then None else find_replacement_event old1 ns)
      in case replacement of
           Some r \<Rightarrow>
             (let (versions1, correction) = create_correction_event versions old1 r;
                  old2 = old1\<lparr> replacement_event_id := Some (event_id correction) \<rparr>;
                  (versions2, olds, corrections) =
                    handle_reorg_loop utcnow new_events versions1 rest
              in (versions2, old2 # olds, correction # corrections))
         | None \<Rightarrow>
             (let (versions2, olds, corrections) =
                    handle_reorg_loop utcnow new_events versions rest
              in (versions2, old1 # olds, corrections)))"

fun history_append ::
    "string \<Rightarrow> ReorgEvent \<Rightarrow> (string \<times> ReorgEvent list) list \<Rightarrow>
     (string \<times> ReorgEvent list) list option" where
  "history_append k r [] = None"
| "history_append k r ((k', rs) # h) =
     (if k' = k then Some ((k', rs @ [r]) # h)
      else map_option (\<lambda>h'. (k', rs) # h') (history_append k r h))"

text \<open>
  \<open>handle_reorg\<close>: \<open>self.reorg_history[chain]\<close> raises \<open>KeyError\<close> for a chain that is not
  a key of the log, after the loop has run.
\<close>

definition handle_reorg ::
    "ReorgHandler \<Rightarrow> real \<Rightarrow> string \<Rightarrow> RiskEvent list \<Rightarrow> RiskEvent list option \<Rightarrow>
     py_error + (ReorgHandler \<times> RiskEvent list \<times> RiskEvent list)" where
  "handle_reorg h utcnow chain0 affected new_events =
     (let (versions', olds, corrections) =
            handle_reorg_loop utcnow new_events (event_versions h) affected;
          reorg_record =
            \<lparr> re_chain = chain0, re_timestamp = utcnow,
              original_block = (case affected of [] \<Rightarrow> Some 0 | e # _ \<Rightarrow> block_number e),
              new_block = (case new_events of
                             None \<Rightarrow> Some 0
                           | Some [] \<Rightarrow> Some 0
                           | Some (n # _) \<Rightarrow> block_number n),
              depth = length affected,
              affected_events = map event_id affected \<rparr>
      in case history_append chain0 reorg_record (reorg_history h) of
           None \<Rightarrow> Inl KeyError
         | Some hist \<Rightarrow>
             Inr (\<lparr> reorg_history = hist, event_versions = versions' \<rparr>, olds, corrections))"

section \<open>Block monitor (layer3_multichain/block_monitor/monitor.py)\<close>

record BlockHeader =
  number :: int
  hash :: string
  parent_hash :: string
  bh_timestamp :: int

text \<open>
  The monitor's state that fork handling reads and writes. The abstract
  \<open>get_block_header\<close> is a parameter: the live chain, \<open>None\<close> where the block cannot be
  fetched.
\<close>

record BlockMonitor =
  bm_chain :: string
  block_cache :: "(int \<times> BlockHeader) list"
  reorgs_detected :: nat
  last_reorg_time :: "real option"
  event_store :: "RiskEvent list"

text \<open>
  \<open>_find_fork_point\<close>: \<open>range(start_height, max(0, start_height - 100), -1)\<close> walks down
  from \<open>start_height\<close> and stops before its lower end.
\<close>

fun find_fork_point_loop ::
    "(int \<times> BlockHeader) list \<Rightarrow> (int \<Rightarrow> BlockHeader option) \<Rightarrow> int list \<Rightarrow> int option" where
  "find_fork_point_loop cache get_block_header [] = None"
| "find_fork_point_loop cache get_block_header (height # rest) =
     (case map_of cache height of
        None \<Rightarrow> find_fork_point_loop cache get_block_header rest
      | Some cached_header \<Rightarrow>
          (case get_block_header height of
             None \<Rightarrow> find_fork_point_loop cache get_block_header rest
           | Some actual_header \<Rightarrow>
               if hash actual_header = hash cached_header then Some height
               else find_fork_point_loop cache get_block_header rest))"

definition find_fork_point ::
    "(int \<times> BlockHeader) list \<Rightarrow> (int \<Rightarrow> BlockHeader option) \<Rightarrow> int \<Rightarrow> int" where
  "find_fork_point cache get_block_header start_height =
     (case find_fork_point_loop cache get_block_header
             (rev [max 0 (start_height - 100) + 1 .. start_height]) of
        Some height \<Rightarrow> height
      | None \<Rightarrow> max 0 (start_height - 100))"

definition get_events_in_range :: "BlockMonitor \<Rightarrow> int \<Rightarrow> int \<Rightarrow> RiskEvent list" where
  "get_events_in_range m start_height end_height =
     filter (\<lambda>e. case block_number e of
                    None \<Rightarrow> False
                  | Some b \<Rightarrow> start_height \<le> b \<and> b \<le> end_height \<and> chain e = bm_chain m)
            (event_store m)"

definition clear_cache_range ::
    "(int \<times> BlockHeader) list \<Rightarrow> int \<Rightarrow> int \<Rightarrow> (int \<times> BlockHeader) list" where
  "clear_cache_range cache start end = filter (\<lambda>(h, _). \<not> (start \<le> h \<and> h \<le> end)) cache"

text \<open>
  \<open>_handle_fork\<close>: the events of the range go to the reorg handler with
  \<open>new_events = None\<close>; the handler mutates them where they live, in the event store.
  The result is the monitor, the handler and the list handed over.
\<close>

fun write_back :: "RiskEvent list \<Rightarrow> (RiskEvent \<Rightarrow> bool) \<Rightarrow> RiskEvent list \<Rightarrow> RiskEvent list" where
  "write_back [] sel olds = []"
| "write_back (e # es) sel olds =
     (if sel e then (case olds of [] \<Rightarrow> e # es | old # rest \<Rightarrow> old # write_back es sel rest)
      else e # write_back es sel olds)"

definition handle_fork ::
    "BlockMonitor \<Rightarrow> ReorgHandler \<Rightarrow> real \<Rightarrow> (int \<Rightarrow> BlockHeader option) \<Rightarrow> int \<Rightarrow>
     py_error + (BlockMonitor \<times> ReorgHandler \<times> RiskEvent list)" where
  "handle_fork m h utcnow get_block_header fork_height =
     (let fork_point = find_fork_point (block_cache m) get_block_header fork_height;
          affected = get_events_in_range m fork_point fork_height;
          in_range = (\<lambda>e. case block_number e of
                             None \<Rightarrow> False
                           | Some b \<Rightarrow> fork_point \<le> b \<and> b \<le> fork_height
                                        \<and> chain e = bm_chain m);
          finish = (\<lambda>store h'.
                      Inr (m\<lparr> event_store := store,
                              reorgs_detected := reorgs_detected m + 1,
                              last_reorg_time := Some utcnow,
                              block_cache :=
                                clear_cache_range (block_cache m) fork_point fork_height \<rparr>,
                           h', affected))
      in if affected = [] then finish (event_store m) h
         else (case handle_reorg h utcnow (bm_chain m) affected None of
                 Inl err \<Rightarrow> Inl err
               | Inr (h', olds, corrections) \<Rightarrow>
                   finish (write_back (event_store m) in_range olds) h'))"

section \<open>Quality pipeline (layer1_core/quality/pipeline.py)\<close>

text \<open>The entries of \<open>config.QUALITY_CONFIG\<close> the pipeline reads.\<close>

definition outlier_threshold :: real where "outlier_threshold = 3.0"
definition price_min :: real where "price_min = 0.95"
definition price_max :: real where "price_max = 1.05"
definition dedup_window_sec :: real where "dedup_window_sec = 60"

text \<open>\<open>str.upper\<close> and \<open>str.lower\<close>, on the ASCII letters.\<close>

definition char_upper :: "char \<Rightarrow> char" where
  "char_upper c =
     (let n = (of_char c :: nat) in if 97 \<le> n \<and> n \<le> 122 then char_of (n - 32) else c)"

definition char_lower :: "char \<Rightarrow> char" where
  "char_lower c =
     (let n = (of_char c :: nat) in if 65 \<le> n \<and> n \<le> 90 then char_of (n + 32) else c)"

definition str_upper :: "string \<Rightarrow> string" where "str_upper s = map char_upper s"
definition str_lower :: "string \<Rightarrow> string" where "str_lower s = map char_lower s"

text \<open>
  \<open>_normalize_events\<close>. Timestamps are naive UTC values throughout, so stripping the time
  zone changes nothing.
\<close>

definition normalize_event :: "RiskEvent \<Rightarrow> RiskEvent" where
  "normalize_event e =
     e\<lparr> coin := (if coin e \<noteq> [] then str_upper (coin e) else []),
        chain := (if chain e \<noteq> [] then str_lower (chain e) else []),
        price := (case price e of
                    None \<Rightarrow> None
                  | Some p \<Rightarrow> if p < price_min then Some price_min
                              else if p > price_max then Some price_max
                              else Some p),
        quality_score := 1.0 \<rparr>"

definition normalize_events :: "RiskEvent list \<Rightarrow> RiskEvent list" where
  "normalize_events evs = map normalize_event evs"

text \<open>
  The format specs \<open>:.6f\<close> and \<open>:.2f\<close> of \<open>_event_signature\<close>: fixed-point notation with
  the given number of decimals, rounded half to even, with a minus sign for a negative
  value.
\<close>

definition round_half_even :: "real \<Rightarrow> int" where
  "round_half_even x =
     (let f = \<lfloor>x\<rfloor>; d = x - of_int f
      in if d < 1/2 then f else if d > 1/2 then f + 1 else if even f then f else f + 1)"

fun show_nat :: "nat \<Rightarrow> string" where
  "show_nat n =
     (if n < 10 then [char_of (48 + n)] else show_nat (n div 10) @ [char_of (48 + n mod 10)])"

definition format_fixed :: "nat \<Rightarrow> real \<Rightarrow> string" where
  "format_fixed p x =
     (let n = nat (round_half_even (\<bar>x\<bar> * 10 ^ p));
          frac = show_nat (n mod 10 ^ p)
      in (if x < 0 then ''-'' else []) @ show_nat (n div 10 ^ p) @ ''.''
         @ replicate (p - length frac) (CHR ''0'') @ frac)"

fun join_bar :: "string list \<Rightarrow> string" where
  "join_bar [] = []"
| "join_bar [s] = s"
| "join_bar (s # t # r) = s @ ''|'' @ join_bar (t # r)"

definition event_signature :: "RiskEvent \<Rightarrow> string" where
  "event_signature e =
     join_bar
       [coin e, chain e, source e,
        (case price e of None \<Rightarrow> ''none'' | Some p \<Rightarrow> format_fixed 6 p),
        (case liquidity_depth e of None \<Rightarrow> ''none'' | Some l \<Rightarrow> format_fixed 2 l),
        (case volume e of None \<Rightarrow> ''none'' | Some v \<Rightarrow> format_fixed 2 v)]"

text \<open>
  \<open>_deduplicate_events\<close>: \<open>seen_events\<close> maps a signature to the timestamp of the last
  event kept under it. The loop returns the map and the events it keeps.
\<close>

fun deduplicate_loop ::
    "(string \<rightharpoonup> real) \<Rightarrow> RiskEvent list \<Rightarrow> (string \<rightharpoonup> real) \<times> RiskEvent list" where
  "deduplicate_loop seen [] = (seen, [])"
| "deduplicate_loop seen (e # es) =
     (let signature = event_signature e;
          duplicate = (case seen signature of
                         None \<Rightarrow> False
                       | Some last_seen \<Rightarrow> timestamp e - last_seen < dedup_window_sec)
      in if duplicate then deduplicate_loop seen es
         else (let (seen', unique_events) =
                     deduplicate_loop (seen(signature \<mapsto> timestamp e)) es
               in (seen', e # unique_events)))"

definition deduplicate_events ::
    "real \<Rightarrow> (string \<rightharpoonup> real) \<Rightarrow> RiskEvent list \<Rightarrow> (string \<rightharpoonup> real) \<times> RiskEvent list" where
  "deduplicate_events utcnow seen evs =
     (let cutoff_time = utcnow - dedup_window_sec;
          seen1 = (\<lambda>sig. case seen sig of
                            None \<Rightarrow> None
                          | Some ts \<Rightarrow> if ts > cutoff_time then Some ts else None)
      in deduplicate_loop seen1 evs)"

text \<open>\<open>statistics.mean\<close> and \<open>statistics.stdev\<close> (the sample standard deviation).\<close>

definition mean :: "real list \<Rightarrow> real" where
  "mean xs = sum_list xs / real (length xs)"

definition stdev :: "real list \<Rightarrow> real" where
  "stdev xs = sqrt (sum_list (map (\<lambda>x. (x - mean xs)\<^sup>2) xs) / real (length xs - 1))"

text \<open>
  One of the two blocks of \<open>_detect_outliers_in_market\<close>, for the metric it reads, as it
  acts on one event of the market.
\<close>

definition flag_metric ::
    "(RiskEvent \<Rightarrow> real option) \<Rightarrow> RiskEvent list \<Rightarrow> RiskEvent \<Rightarrow> RiskEvent" where
  "flag_metric metric market e =
     (let values = List.map_filter metric market
      in if length values \<ge> 3 then
           (let mean_v = mean values; stdev_v = stdev values
            in if stdev_v > 0 then
                 (case metric e of
                    None \<Rightarrow> e
                  | Some v \<Rightarrow>
                      (let z_score = \<bar>v - mean_v\<bar> / stdev_v
                       in if z_score > outlier_threshold
                          then e\<lparr> is_outlier := True, quality_score := quality_score e * 0.5 \<rparr>
                          else e))
               else e)
         else e)"

definition detect_outliers_in_market :: "RiskEvent list \<Rightarrow> RiskEvent list" where
  "detect_outliers_in_market market =
     (if length market < 3 then market
      else let market1 = map (flag_metric price market) market
           in map (flag_metric liquidity_depth market1) market1)"

text \<open>
  \<open>_detect_outliers\<close> groups the events by \<open>(coin, chain)\<close>, updates every group in place
  and returns the list it was given. Here each event is looked up, by its position in
  its market, in the updated market.
\<close>

definition same_market :: "RiskEvent \<Rightarrow> RiskEvent \<Rightarrow> bool" where
  "same_market e x = (coin x = coin e \<and> chain x = chain e)"

fun detect_outliers_from :: "RiskEvent list \<Rightarrow> RiskEvent list \<Rightarrow> RiskEvent list \<Rightarrow> RiskEvent list" where
  "detect_outliers_from all_events before [] = []"
| "detect_outliers_from all_events before (e # rest) =
     (detect_outliers_in_market (filter (same_market e) all_events)
        ! length (filter (same_market e) before))
     # detect_outliers_from all_events (before @ [e]) rest"

definition detect_outliers :: "RiskEvent list \<Rightarrow> RiskEvent list" where
  "detect_outliers evs =
     (if length evs < 3 then evs else detect_outliers_from evs [] evs)"

definition process_events ::
    "real \<Rightarrow> (string \<rightharpoonup> real) \<Rightarrow> RiskEvent list \<Rightarrow> (string \<rightharpoonup> real) \<times> RiskEvent list" where
  "process_events utcnow seen evs =
     (if evs = [] then (seen, [])
      else let evs1 = normalize_events evs;
               (seen', evs2) = deduplicate_events utcnow seen evs1
           in (seen', detect_outliers evs2))"

text \<open>
  Derived forms of the outlier stage, for the proofs below. \<open>z_score_exceeds\<close> is the test
  of one block of \<open>_detect_outliers_in_market\<close> on one event; \<open>outlier_flags\<close> is the pair
  of tests (price, liquidity) that the stage applies to an event of a batch, and
  \<open>apply_flags\<close> is what a pair of tests does to the event.
\<close>

definition z_score_exceeds :: "(RiskEvent \<Rightarrow> real option) \<Rightarrow> RiskEvent list \<Rightarrow> RiskEvent \<Rightarrow> bool" where
  "z_score_exceeds metric market e =
     (let values = List.map_filter metric market
      in length values \<ge> 3 \<and> stdev values > 0
         \<and> (case metric e of
               None \<Rightarrow> False
             | Some v \<Rightarrow> \<bar>v - mean values\<bar> / stdev values > outlier_threshold))"

definition outlier_flags :: "RiskEvent list \<Rightarrow> RiskEvent \<Rightarrow> bool \<times> bool" where
  "outlier_flags evs e =
     (let market = filter (same_market e) evs
      in if length evs < 3 \<or> length market < 3 then (False, False)
         else (z_score_exceeds price market e, z_score_exceeds liquidity_depth market e))"

definition apply_flags :: "bool \<times> bool \<Rightarrow> RiskEvent \<Rightarrow> RiskEvent" where
  "apply_flags flags e =
     e\<lparr> is_outlier := (is_outlier e \<or> fst flags \<or> snd flags),
        quality_score := quality_score e * (if fst flags then 0.5 else 1)
                                         * (if snd flags then 0.5 else 1) \<rparr>"

section \<open>Concrete inputs\<close>

text \<open>Events and states on which the theorems below are evaluated.\<close>

definition tier3_event :: "string \<Rightarrow> real \<Rightarrow> RiskEvent" where
  "tier3_event c t =
     (new_RiskEvent ''x'' t)\<lparr> chain := c, finality_tier := FinalityTier_value TIER3 \<rparr>"

definition five_source_events :: "RiskEvent list" where
  "five_source_events =
     [(tier3_event ''ethereum'' 0)\<lparr> price := Some 1 \<rparr>,
      (tier3_event ''ethereum'' 0)\<lparr> liquidity_depth := Some 1 \<rparr>,
      (tier3_event ''ethereum'' 0)\<lparr> net_supply_change := Some 1 \<rparr>,
      (tier3_event ''ethereum'' 0)\<lparr> market_volatility := Some 1 \<rparr>,
      (tier3_event ''ethereum'' 0)\<lparr> sentiment_score := Some 1 \<rparr>]"

definition one_event_window :: TimeWindow where
  "one_event_window =
     (new_TimeWindow 0 ''w'' 0 300)\<lparr> events := [tier3_event ''ethereum'' 10] \<rparr>"

definition offchain_event :: RiskEvent where
  "offchain_event = (new_RiskEvent ''x'' 10)\<lparr> chain := ''ethereum'', price := Some 1 \<rparr>"

definition ethereum_tracker :: "int option \<Rightarrow> FinalityTracker" where
  "ethereum_tracker head =
     \<lparr> chain_config = ethereum_config, get_current_block_number = head,
       check_block_exists = (\<lambda>_. Some True) \<rparr>"

definition ethereum_registry :: FinalityTrackerRegistry where
  "ethereum_registry = [''ethereum'' \<mapsto> ethereum_tracker None]"

definition fresh_window :: TimeWindow where
  "fresh_window = new_TimeWindow 0 ''w'' 0 300"

definition onchain_event :: RiskEvent where
  "onchain_event =
     (new_RiskEvent ''x'' 10)\<lparr> chain := ''ethereum'', block_number := Some 100 \<rparr>"

definition tier3_replacement :: RiskEvent where
  "tier3_replacement =
     (new_RiskEvent ''y'' 20)\<lparr> chain := ''ethereum'', block_number := Some 101,
        finality_tier := FinalityTier_value TIER3, is_finalized := True \<rparr>"

definition open_window :: TimeWindow where
  "open_window = run_window fresh_window [AddEvent offchain_event]"

definition provisional_window :: TimeWindow where
  "provisional_window =
     run_window fresh_window [AddEvent offchain_event, Tick ethereum_registry 400 400]"

definition final_window :: TimeWindow where
  "final_window =
     run_window fresh_window [AddEvent offchain_event, Tick ethereum_registry 1300 1300]"

definition finalized_event :: RiskEvent where
  "finalized_event = update_event_finality (ethereum_tracker (Some 200)) 50 onchain_event"

definition four_source_events :: "RiskEvent list" where
  "four_source_events =
     [(tier3_event ''ethereum'' 0)\<lparr> price := Some 1 \<rparr>,
      (tier3_event ''ethereum'' 0)\<lparr> liquidity_depth := Some 1 \<rparr>,
      (tier3_event ''ethereum'' 0)\<lparr> net_supply_change := Some 1 \<rparr>,
      (tier3_event ''ethereum'' 0)\<lparr> market_volatility := Some 1 \<rparr>]"

definition version2_event :: RiskEvent where
  "version2_event = onchain_event\<lparr> event_version := 2 \<rparr>"

definition market_event :: "real \<Rightarrow> RiskEvent" where
  "market_event t = (new_RiskEvent ''x'' t)\<lparr> coin := ''USDC'', chain := ''ethereum'' \<rparr>"

definition volume_spike_events :: "RiskEvent list" where
  "volume_spike_events =
     map (\<lambda>t. (market_event t)\<lparr> volume := Some 1 \<rparr>)
         [0, 60, 120, 180, 240, 300, 360, 420, 480, 540]
     @ [(market_event 600)\<lparr> volume := Some 1000 \<rparr>]"

definition liquidity_spike_events :: "RiskEvent list" where
  "liquidity_spike_events =
     map (\<lambda>t. (market_event t)\<lparr> liquidity_depth := Some 1 \<rparr>)
         [0, 60, 120, 180, 240, 300, 360, 420, 480, 540]
     @ [(market_event 600)\<lparr> liquidity_depth := Some 1000 \<rparr>]"

definition block_header :: "int \<Rightarrow> string \<Rightarrow> BlockHeader" where
  "block_header n h = \<lparr> number = n, hash = h, parent_hash = '''', bh_timestamp = 0 \<rparr>"

definition event_at_block :: "string \<Rightarrow> int \<Rightarrow> RiskEvent" where
  "event_at_block eid b =
     (new_RiskEvent eid 0)\<lparr> chain := ''ethereum'', block_number := Some b \<rparr>"

definition forked_monitor :: BlockMonitor where
  "forked_monitor =
     \<lparr> bm_chain = ''ethereum'',
       block_cache = [(9, block_header 9 ''a''), (10, block_header 10 ''b'')],
       reorgs_detected = 0, last_reorg_time = None,
       event_store = [event_at_block ''e9'' 9, event_at_block ''e10'' 10] \<rparr>"

definition live_chain :: "int \<Rightarrow> BlockHeader option" where
  "live_chain height =
     (if height = 9 then Some (block_header 9 ''a'')
      else if height = 10 then Some (block_header 10 ''c'')
      else None)"

definition multi_field_event :: RiskEvent where
  "multi_field_event =
     (new_RiskEvent ''x'' 0)\<lparr> source := ''dex'', price := Some 1, liquidity_depth := Some 5,
                              sentiment_score := Some 0 \<rparr>"

definition price_only_event :: RiskEvent where
  "price_only_event = (new_RiskEvent ''x'' 0)\<lparr> source := ''dex'', price := Some 1 \<rparr>"

definition pipeline_event :: RiskEvent where
  "pipeline_event =
     (new_RiskEvent ''x'' 100)\<lparr> coin := ''USDC'', chain := ''ethereum'', source := ''dex'',
                                price := Some 1 \<rparr>"

section \<open>The TCS and the staleness penalty\<close>

lemma staleness_penalty_pos: "0 < calculate_staleness_penalty evs t"
  by (simp add: calculate_staleness_penalty_def Let_def split: list.split)

lemma tcs_clamped:
  "0 \<le> cb_temporal_confidence (calculate_tcs utcnow evs ts)
   \<and> cb_temporal_confidence (calculate_tcs utcnow evs ts) \<le> 1
   \<and> cb_temporal_confidence (calculate_tcs utcnow [] ts) = 0"
  by (simp add: calculate_tcs_def Let_def)

lemmas tcs_eval_defs =
  calculate_tcs_def tier3_event_def new_RiskEvent_def Let_def
  calculate_finality_weight_def finality_weight_step_def get_confidence_tier_value_def
  tier_map_def importance_of_def infer_source_type_def source_importance_def
  calculate_chain_confidence_def chain_finalities_of_def calculate_completeness_def
  present_sources_def expected_sources_def calculate_staleness_penalty_def
  threshold_fresh_def threshold_acceptable_def

lemma five_source_components:
  "cb_finality_weight (calculate_tcs 0 five_source_events (Some 1000)) = 1"
  "cb_chain_confidence (calculate_tcs 0 five_source_events (Some 1000)) = 1"
  "cb_completeness (calculate_tcs 0 five_source_events (Some 1000)) = 1"
  "cb_staleness_penalty (calculate_tcs 0 five_source_events (Some 1000)) = 0.7"
  by (simp_all add: tcs_eval_defs five_source_events_def)

lemma four_source_tcs:
  "cb_temporal_confidence (calculate_tcs 0 four_source_events (Some 10)) = 4/5"
  "cb_temporal_confidence (calculate_tcs 0 four_source_events (Some 400)) = 8/9"
  "cb_temporal_confidence (calculate_tcs 0 four_source_events (Some 1000)) = 1"
  by (simp_all add: tcs_eval_defs four_source_events_def)

text \<open>
  Claim C2 says that the TCS is 1 only if finality weight, chain confidence and
  completeness are 1 and the staleness penalty is 1. The calculator divides the product
  of the three components by the staleness penalty, which is below 1 for old events.
  Five TIER3 events, one per expected source, that are 1000 seconds old have the
  penalty 0.7 and the TCS 1; and the TCS of four TIER3 events of four sources rises as
  the same events get older (reference times 10, 400 and 1000 seconds after them).
\<close>

theorem tcs_one_with_stale_events:
  "cb_temporal_confidence (calculate_tcs 0 five_source_events (Some 1000)) = 1
   \<and> cb_staleness_penalty (calculate_tcs 0 five_source_events (Some 1000)) = 0.7
   \<and> cb_temporal_confidence (calculate_tcs 0 four_source_events (Some 10))
       < cb_temporal_confidence (calculate_tcs 0 four_source_events (Some 400))
   \<and> cb_temporal_confidence (calculate_tcs 0 four_source_events (Some 400))
       < cb_temporal_confidence (calculate_tcs 0 four_source_events (Some 1000))"
proof -
  have "cb_temporal_confidence (calculate_tcs 0 five_source_events (Some 1000)) = 1"
    by (simp add: tcs_eval_defs five_source_events_def)
  then show ?thesis
    by (simp add: five_source_components(4) four_source_tcs)
qed
section \<open>Chain confidence is a lower bound\<close>

lemma chain_finalities_put_le:
  "\<exists>q \<in> set (chain_finalities_put k v d). snd q \<le> v"
proof (induction d)
  case Nil
  show ?case by simp
next
  case (Cons a d)
  obtain k' v' where a: "a = (k', v')" by (cases a)
  show ?case
  proof (cases "k' = k")
    case True
    then show ?thesis using a by simp
  next
    case False
    from Cons.IH obtain q where "q \<in> set (chain_finalities_put k v d)" "snd q \<le> v" by blast
    then show ?thesis using a False by auto
  qed
qed

lemma chain_finalities_put_mono:
  "p \<in> set d \<Longrightarrow> \<exists>q \<in> set (chain_finalities_put k v d). snd q \<le> snd p"
  by (induction d) (auto simp: min_le_iff_disj)

lemma chain_finalities_fold_mono:
  "p \<in> set d \<Longrightarrow>
   \<exists>q \<in> set (fold (\<lambda>e d. chain_finalities_put (chain e) (get_confidence_tier_value e) d) es d).
     snd q \<le> snd p"
proof (induction es arbitrary: d p)
  case Nil
  then show ?case by auto
next
  case (Cons e es)
  from chain_finalities_put_mono[OF Cons.prems, of "chain e" "get_confidence_tier_value e"]
  obtain q where q: "q \<in> set (chain_finalities_put (chain e) (get_confidence_tier_value e) d)"
    "snd q \<le> snd p" by blast
  from Cons.IH[OF q(1)] obtain r where
    r: "r \<in> set (fold (\<lambda>e d. chain_finalities_put (chain e) (get_confidence_tier_value e) d) es
                   (chain_finalities_put (chain e) (get_confidence_tier_value e) d))"
    "snd r \<le> snd q" by blast
  then have "snd r \<le> snd p" using q(2) by linarith
  with r(1) show ?case by auto
qed

lemma chain_finalities_fold_le:
  "e \<in> set es \<Longrightarrow>
   \<exists>q \<in> set (fold (\<lambda>e d. chain_finalities_put (chain e) (get_confidence_tier_value e) d) es d).
     snd q \<le> get_confidence_tier_value e"
proof (induction es arbitrary: d)
  case Nil
  then show ?case by simp
next
  case (Cons x es)
  show ?case
  proof (cases "e = x")
    case True
    obtain q where q: "q \<in> set (chain_finalities_put (chain x) (get_confidence_tier_value x) d)"
      "snd q \<le> get_confidence_tier_value x"
      using chain_finalities_put_le by blast
    from chain_finalities_fold_mono[OF q(1), of es] obtain r where
      r: "r \<in> set (fold (\<lambda>e d. chain_finalities_put (chain e) (get_confidence_tier_value e) d) es
                     (chain_finalities_put (chain x) (get_confidence_tier_value x) d))"
      "snd r \<le> snd q" by blast
    then have "snd r \<le> get_confidence_tier_value e" using q(2) True by simp
    with r(1) show ?thesis by auto
  next
    case False
    with Cons.prems have "e \<in> set es" by simp
    from Cons.IH[OF this] show ?thesis by simp
  qed
qed

lemma min_list_le: "x \<in> set xs \<Longrightarrow> min_list xs \<le> (x::real)"
  by (metis List.finite_set Min_le empty_iff list.set(1) min_list_Min)

lemma calculate_chain_confidence_le:
  assumes "e \<in> set evs"
  shows "calculate_chain_confidence evs \<le> get_confidence_tier_value e"
proof -
  obtain q where q: "q \<in> set (chain_finalities_of evs)" "snd q \<le> get_confidence_tier_value e"
    using chain_finalities_fold_le[OF assms, of "[]"] unfolding chain_finalities_of_def by blast
  then have ne: "chain_finalities_of evs \<noteq> []" by auto
  have "min_list (map snd (chain_finalities_of evs)) \<le> snd q"
    using q(1) by (intro min_list_le) auto
  with q(2) ne assms show ?thesis
    by (auto simp: calculate_chain_confidence_def Let_def)
qed

lemma cross_chain_confidence_le:
  assumes "(c, evs) \<in> set ebc" "e \<in> set evs"
  shows "cross_chain_confidence ebc \<le> get_confidence_tier_value e"
proof -
  let ?ccs = "map (\<lambda>(c, evs). min_list (map get_confidence_tier_value evs))
                (filter (\<lambda>(c, evs). evs \<noteq> []) ebc)"
  from assms have ne: "evs \<noteq> []" by auto
  with assms(1) have mem: "min_list (map get_confidence_tier_value evs) \<in> set ?ccs"
    by force
  then have "?ccs \<noteq> []" by (metis empty_iff list.set(1))
  moreover have "min_list ?ccs \<le> min_list (map get_confidence_tier_value evs)"
    using mem by (rule min_list_le)
  moreover have "min_list (map get_confidence_tier_value evs) \<le> get_confidence_tier_value e"
    using assms(2) by (intro min_list_le) auto
  ultimately show ?thesis by (simp add: cross_chain_confidence_def Let_def)
qed

lemma generate_snapshot_breakdown:
  assumes "filter (\<lambda>e. \<not> invalidated e) (events w) \<noteq> []"
  shows "confidence_breakdown (generate_snapshot utcnow w) = Some
     [(''finality_weight'', calculate_finality_weight (filter (\<lambda>e. \<not> invalidated e) (events w))),
      (''chain_confidence'', calculate_chain_confidence (filter (\<lambda>e. \<not> invalidated e) (events w))),
      (''completeness'', calculate_completeness (filter (\<lambda>e. \<not> invalidated e) (events w))),
      (''staleness_penalty'', calculate_staleness_penalty (filter (\<lambda>e. \<not> invalidated e) (events w)) utcnow)]"
  using assms
  by (simp add: generate_snapshot_def calculate_tcs_def Let_def split: list.split)

lemma aggregate_breakdown:
  assumes "aggregate_cross_chain utcnow ebc wid coin0 = Some snap"
  shows "\<exists>cb. confidence_breakdown snap = Some cb \<and>
     map_of cb ''chain_confidence'' = Some (cross_chain_confidence ebc)"
  using assms
  by (auto simp add: aggregate_cross_chain_def Let_def split: if_splits)

text \<open>
  Claim C3. In the snapshot a window generates and in the snapshot of the cross-chain
  aggregator, the chain-confidence component of the confidence breakdown is at most the
  least tier confidence of the aggregated events of any chain that has events there.
\<close>

theorem snapshot_chain_confidence_le_chain_min:
  "(\<forall>c. {e \<in> set (events w). \<not> invalidated e \<and> chain e = c} \<noteq> {} \<longrightarrow>
      (\<exists>cb cc. confidence_breakdown (generate_snapshot utcnow w) = Some cb
         \<and> map_of cb ''chain_confidence'' = Some cc
         \<and> cc \<le> Min (get_confidence_tier_value `
                       {e \<in> set (events w). \<not> invalidated e \<and> chain e = c})))
   \<and> (\<forall>snap c. aggregate_cross_chain utcnow ebc wid coin0 = Some snap
         \<and> {e \<in> set (concat (map snd ebc)). chain e = c} \<noteq> {} \<longrightarrow>
      (\<exists>cb cc. confidence_breakdown snap = Some cb
         \<and> map_of cb ''chain_confidence'' = Some cc
         \<and> cc \<le> Min (get_confidence_tier_value `
                       {e \<in> set (concat (map snd ebc)). chain e = c})))"
proof (intro conjI allI impI)
  fix c
  let ?valid = "filter (\<lambda>e. \<not> invalidated e) (events w)"
  let ?S = "{e \<in> set (events w). \<not> invalidated e \<and> chain e = c}"
  assume ne: "?S \<noteq> {}"
  then have v: "?valid \<noteq> []" by (auto simp: filter_empty_conv)
  have "calculate_chain_confidence ?valid \<le> Min (get_confidence_tier_value ` ?S)"
  proof (rule Min.boundedI)
    show "finite (get_confidence_tier_value ` ?S)" by simp
    show "get_confidence_tier_value ` ?S \<noteq> {}" using ne by simp
    fix a assume "a \<in> get_confidence_tier_value ` ?S"
    then obtain e where "e \<in> set ?valid" "a = get_confidence_tier_value e" by auto
    then show "calculate_chain_confidence ?valid \<le> a"
      using calculate_chain_confidence_le by blast
  qed
  then show "\<exists>cb cc. confidence_breakdown (generate_snapshot utcnow w) = Some cb
         \<and> map_of cb ''chain_confidence'' = Some cc
         \<and> cc \<le> Min (get_confidence_tier_value ` ?S)"
    by (simp add: generate_snapshot_breakdown[OF v])
next
  fix snap c
  let ?S = "{e \<in> set (concat (map snd ebc)). chain e = c}"
  assume a: "aggregate_cross_chain utcnow ebc wid coin0 = Some snap \<and> ?S \<noteq> {}"
  have "cross_chain_confidence ebc \<le> Min (get_confidence_tier_value ` ?S)"
  proof (rule Min.boundedI)
    show "finite (get_confidence_tier_value ` ?S)" by simp
    show "get_confidence_tier_value ` ?S \<noteq> {}" using a by simp
    fix x assume "x \<in> get_confidence_tier_value ` ?S"
    then obtain e where e: "e \<in> set (concat (map snd ebc))" "x = get_confidence_tier_value e"
      by auto
    then obtain k evs where "(k, evs) \<in> set ebc" "e \<in> set evs" by auto
    then show "cross_chain_confidence ebc \<le> x"
      using cross_chain_confidence_le e(2) by blast
  qed
  with aggregate_breakdown[of utcnow ebc wid coin0 snap] a
  show "\<exists>cb cc. confidence_breakdown snap = Some cb
         \<and> map_of cb ''chain_confidence'' = Some cc
         \<and> cc \<le> Min (get_confidence_tier_value ` ?S)"
    by auto
qed

theorem snapshot_chain_confidence_le_chain_min_witness:
  "{e \<in> set (events one_event_window). \<not> invalidated e \<and> chain e = ''ethereum''} \<noteq> {}
   \<and> aggregate_cross_chain 0 [(''ethereum'', five_source_events)] ''w'' ''USDC'' \<noteq> None
   \<and> {e \<in> set (concat (map snd [(''ethereum'', five_source_events)])).
        chain e = ''ethereum''} \<noteq> {}
   \<and> (\<exists>cb cc. confidence_breakdown (generate_snapshot 0 one_event_window) = Some cb
         \<and> map_of cb ''chain_confidence'' = Some cc
         \<and> cc \<le> Min (get_confidence_tier_value `
               {e \<in> set (events one_event_window). \<not> invalidated e \<and> chain e = ''ethereum''}))
   \<and> (\<exists>cb cc. confidence_breakdown
                 (the (aggregate_cross_chain 0 [(''ethereum'', five_source_events)] ''w'' ''USDC''))
               = Some cb
         \<and> map_of cb ''chain_confidence'' = Some cc
         \<and> cc \<le> Min (get_confidence_tier_value `
               {e \<in> set (concat (map snd [(''ethereum'', five_source_events)])).
                  chain e = ''ethereum''}))"
proof -
  have "tier3_event ''ethereum'' 10
          \<in> {e \<in> set (events one_event_window). \<not> invalidated e \<and> chain e = ''ethereum''}"
    by (simp add: one_event_window_def new_TimeWindow_def tier3_event_def new_RiskEvent_def)
  then have a: "{e \<in> set (events one_event_window).
                  \<not> invalidated e \<and> chain e = ''ethereum''} \<noteq> {}"
    by blast
  have b: "aggregate_cross_chain 0 [(''ethereum'', five_source_events)] ''w'' ''USDC'' \<noteq> None"
    by (simp add: aggregate_cross_chain_def five_source_events_def Let_def)
  have "(tier3_event ''ethereum'' 0)\<lparr> price := Some 1 \<rparr>
          \<in> {e \<in> set (concat (map snd [(''ethereum'', five_source_events)])).
               chain e = ''ethereum''}"
    by (simp add: five_source_events_def tier3_event_def new_RiskEvent_def)
  then have c: "{e \<in> set (concat (map snd [(''ethereum'', five_source_events)])).
                  chain e = ''ethereum''} \<noteq> {}"
    by blast
  from b obtain snap where
    s: "aggregate_cross_chain 0 [(''ethereum'', five_source_events)] ''w'' ''USDC'' = Some snap"
    by blast
  then have sel:
    "the (aggregate_cross_chain 0 [(''ethereum'', five_source_events)] ''w'' ''USDC'') = snap"
    by simp
  note t = snapshot_chain_confidence_le_chain_min
             [where w = one_event_window and utcnow = 0
               and ebc = "[(''ethereum'', five_source_events)]"
               and wid = "''w''" and ?coin0.0 = "''USDC''"]
  note p1 = t[THEN conjunct1, rule_format, OF a]
  note p2 = t[THEN conjunct2, rule_format, OF conjI[OF s c]]
  show ?thesis
    unfolding sel by (rule conjI[OF a conjI[OF b conjI[OF c conjI[OF p1 p2]]]])
qed
section \<open>A window is finalized only when its events are\<close>

lemma state_transition_to_final: "state (transition_to_final utcnow w) = FINAL"
  by (simp add: transition_to_final_def Let_def)

lemma events_transition_to_final:
  "events (transition_to_final utcnow w) =
     map (\<lambda>e. e\<lparr> window_state := WindowState_value FINAL \<rparr>) (events w)"
  by (simp add: transition_to_final_def Let_def)

lemma state_update_window_finality:
  "state (update_window_finality trackers utcnow w) = state w"
  by (simp add: update_window_finality_def)

lemma end_update_window_finality:
  "tw_window_end (update_window_finality trackers utcnow w) = tw_window_end w"
  by (simp add: update_window_finality_def)

lemma state_transition_to_provisional:
  "state (transition_to_provisional utcnow w) = PROVISIONAL"
  by (simp add: transition_to_provisional_def)

lemma end_transition_to_provisional:
  "tw_window_end (transition_to_provisional utcnow w) = tw_window_end w"
  by (simp add: transition_to_provisional_def)

lemmas window_field_simps =
  state_transition_to_final events_transition_to_final state_update_window_finality
  end_update_window_finality state_transition_to_provisional end_transition_to_provisional

lemma try_final_cases:
  "(if can_transition_to_final w2 current_time
    then (if all_events_finalized w2 then transition_to_final utcnow w2 else w2)
    else w2) =
   (if state w2 = PROVISIONAL \<and> tw_window_end w2 + finalization_delay_sec \<le> current_time
       \<and> (\<forall>e \<in> set (events w2). is_finalized e \<or> invalidated e)
    then transition_to_final utcnow w2 else w2)"
  by (auto simp: can_transition_to_final_def all_events_finalized_def list_all_iff)

lemma process_window_final_fixed:
  "state w = FINAL \<Longrightarrow> process_window trackers utcnow w current_time = w"
  by (simp add: process_window_def can_transition_to_provisional_def
                can_transition_to_final_def Let_def)

lemma process_window_provisional:
  assumes "state w = PROVISIONAL"
  shows "process_window trackers utcnow w current_time =
           (if tw_window_end w + finalization_delay_sec \<le> current_time
               \<and> (\<forall>e \<in> set (events (update_window_finality trackers utcnow w)).
                     is_finalized e \<or> invalidated e)
            then transition_to_final utcnow (update_window_finality trackers utcnow w)
            else update_window_finality trackers utcnow w)"
  unfolding process_window_def Let_def try_final_cases
  using assms by (auto simp: can_transition_to_provisional_def window_field_simps)

lemma process_window_open:
  assumes "state w = OPEN"
  shows "process_window trackers utcnow w current_time =
           (if can_transition_to_provisional w current_time
            then process_window trackers utcnow (transition_to_provisional utcnow w) current_time
            else w)"
proof (cases "can_transition_to_provisional w current_time")
  case True
  have "\<not> can_transition_to_provisional (transition_to_provisional utcnow w) current_time"
    by (simp add: can_transition_to_provisional_def window_field_simps)
  then show ?thesis using True by (simp add: process_window_def)
next
  case False
  then show ?thesis using assms
    by (simp add: process_window_def can_transition_to_final_def)
qed

lemma process_window_reaches_final:
  assumes "state w \<noteq> FINAL" "state (process_window trackers utcnow w current_time) = FINAL"
  shows "tw_window_end w + finalization_delay_sec \<le> current_time
         \<and> (\<forall>e \<in> set (events (process_window trackers utcnow w current_time)).
               is_finalized e \<or> invalidated e)"
proof -
  have prov: "tw_window_end v + finalization_delay_sec \<le> current_time
         \<and> (\<forall>e \<in> set (events (process_window trackers utcnow v current_time)).
               is_finalized e \<or> invalidated e)"
    if "state v = PROVISIONAL" "state (process_window trackers utcnow v current_time) = FINAL"
    for v
    using that
    by (auto simp: process_window_provisional[OF that(1)] window_field_simps
             split: if_splits)
  show ?thesis
  proof (cases "state w")
    case OPEN
    show ?thesis
    proof (cases "can_transition_to_provisional w current_time")
      case True
      let ?v = "transition_to_provisional utcnow w"
      have eq: "process_window trackers utcnow w current_time =
                process_window trackers utcnow ?v current_time"
        using process_window_open[OF OPEN] True by simp
      have "state ?v = PROVISIONAL" by (simp add: window_field_simps)
      from prov[OF this] assms(2) eq show ?thesis by (simp add: window_field_simps)
    next
      case False
      then show ?thesis using process_window_open[OF OPEN] assms(2) OPEN by simp
    qed
  next
    case PROVISIONAL
    then show ?thesis using prov assms(2) by blast
  next
    case FINAL
    then show ?thesis using assms(1) by simp
  qed
qed

lemma apply_window_op_final_ok:
  assumes "state w = FINAL \<longrightarrow> (\<forall>e \<in> set (events w). is_finalized e \<or> invalidated e)"
  shows "state (apply_window_op w op) = FINAL \<longrightarrow>
         (\<forall>e \<in> set (events (apply_window_op w op)). is_finalized e \<or> invalidated e)"
proof (cases op)
  case (AddEvent e)
  then show ?thesis using assms by (auto simp: add_event_def)
next
  case (Tick trackers utcnow current_time)
  show ?thesis
  proof (cases "state w = FINAL")
    case True
    then show ?thesis using assms Tick by (simp add: process_window_final_fixed)
  next
    case False
    then show ?thesis using Tick process_window_reaches_final[OF False] by simp
  qed
qed

lemma run_window_final_ok:
  assumes "state w = FINAL \<longrightarrow> (\<forall>e \<in> set (events w). is_finalized e \<or> invalidated e)"
  shows "state (run_window w ops) = FINAL \<longrightarrow>
         (\<forall>e \<in> set (events (run_window w ops)). is_finalized e \<or> invalidated e)"
  using assms unfolding run_window_def
proof (induction ops arbitrary: w)
  case Nil
  then show ?case by simp
next
  case (Cons op ops)
  show ?case using Cons.IH[OF apply_window_op_final_ok[OF Cons.prems]] by simp
qed
text \<open>
  Claim C1. Whatever events are offered to a window and however the scheduler ticks, a
  window in the FINAL state holds only events that are finalized or invalidated. A tick
  takes a window to FINAL only when the finalization delay has elapsed and every event
  is finalized or invalidated after the refresh of that tick; a PROVISIONAL window for
  which this does not hold stays PROVISIONAL, and one for which it holds becomes FINAL.
\<close>

theorem window_final_only_when_events_final:
  "(state (run_window (new_TimeWindow t0 wid wstart wend) ops) = FINAL \<longrightarrow>
      (\<forall>e \<in> set (events (run_window (new_TimeWindow t0 wid wstart wend) ops)).
         is_finalized e \<or> invalidated e))
   \<and> (state w \<noteq> FINAL \<and> state (process_window trackers utcnow w current_time) = FINAL \<longrightarrow>
        tw_window_end w + finalization_delay_sec \<le> current_time
        \<and> (\<forall>e \<in> set (events (process_window trackers utcnow w current_time)).
              is_finalized e \<or> invalidated e))
   \<and> (state w = PROVISIONAL
        \<and> \<not> (tw_window_end w + finalization_delay_sec \<le> current_time
              \<and> (\<forall>e \<in> set (events (update_window_finality trackers utcnow w)).
                    is_finalized e \<or> invalidated e)) \<longrightarrow>
        state (process_window trackers utcnow w current_time) = PROVISIONAL)
   \<and> (state w = PROVISIONAL
        \<and> tw_window_end w + finalization_delay_sec \<le> current_time
        \<and> (\<forall>e \<in> set (events (update_window_finality trackers utcnow w)).
              is_finalized e \<or> invalidated e) \<longrightarrow>
        state (process_window trackers utcnow w current_time) = FINAL)"
proof (intro conjI impI)
  show "\<forall>e \<in> set (events (run_window (new_TimeWindow t0 wid wstart wend) ops)).
          is_finalized e \<or> invalidated e"
    if "state (run_window (new_TimeWindow t0 wid wstart wend) ops) = FINAL"
    using that run_window_final_ok[of "new_TimeWindow t0 wid wstart wend" ops]
    by (simp add: new_TimeWindow_def)
next
  assume a: "state w \<noteq> FINAL \<and> state (process_window trackers utcnow w current_time) = FINAL"
  from process_window_reaches_final[of w trackers utcnow current_time] a
  show "tw_window_end w + finalization_delay_sec \<le> current_time"
    and "\<forall>e \<in> set (events (process_window trackers utcnow w current_time)).
           is_finalized e \<or> invalidated e"
    by blast+
next
  assume "state w = PROVISIONAL
        \<and> \<not> (tw_window_end w + finalization_delay_sec \<le> current_time
              \<and> (\<forall>e \<in> set (events (update_window_finality trackers utcnow w)).
                    is_finalized e \<or> invalidated e))"
  then show "state (process_window trackers utcnow w current_time) = PROVISIONAL"
    by (auto simp: process_window_provisional update_window_finality_def)
next
  assume "state w = PROVISIONAL
        \<and> tw_window_end w + finalization_delay_sec \<le> current_time
        \<and> (\<forall>e \<in> set (events (update_window_finality trackers utcnow w)).
              is_finalized e \<or> invalidated e)"
  then show "state (process_window trackers utcnow w current_time) = FINAL"
    by (simp add: process_window_provisional transition_to_final_def Let_def)
qed

lemma open_window_eq:
  "open_window =
     fresh_window\<lparr> events :=
       [offchain_event\<lparr> window_id := ''w'', window_state := ''OPEN'',
                         window_start := Some 0, window_end := Some 300 \<rparr>] \<rparr>"
  by (simp add: open_window_def run_window_def fresh_window_def new_TimeWindow_def
                add_event_def)

lemma open_window_fields:
  "state open_window = OPEN" "tw_window_end open_window = 300"
  by (simp_all add: open_window_eq fresh_window_def new_TimeWindow_def)

lemma open_window_can_close:
  "can_transition_to_provisional open_window 400"
  "can_transition_to_provisional open_window 1300"
  by (simp_all add: can_transition_to_provisional_def open_window_fields is_expired_def
                    provisional_delay_sec_def)

lemma refreshed_open_window:
  "list_all (\<lambda>e. is_finalized e \<or> invalidated e)
     (events (update_window_finality ethereum_registry 1300
                (transition_to_provisional 1300 open_window)))"
  "\<not> list_all (\<lambda>e. is_finalized e \<or> invalidated e)
       (events (update_window_finality ethereum_registry 400
                  (transition_to_provisional 400 open_window)))"
  by (simp_all add: update_window_finality_def transition_to_provisional_def open_window_eq
                    offchain_event_def new_RiskEvent_def registry_update_event_finality_def
                    ethereum_registry_def ethereum_tracker_def update_event_finality_def
                    update_offchain_finality_def ethereum_config_def Let_def)

lemma provisional_window_eq:
  "provisional_window =
     update_window_finality ethereum_registry 400 (transition_to_provisional 400 open_window)"
proof -
  have "provisional_window = process_window ethereum_registry 400 open_window 400"
    by (simp add: provisional_window_def open_window_def run_window_def)
  also have "\<dots> = process_window ethereum_registry 400
                     (transition_to_provisional 400 open_window) 400"
    using process_window_open[OF open_window_fields(1)] open_window_can_close(1) by simp
  also have "\<dots> = update_window_finality ethereum_registry 400
                     (transition_to_provisional 400 open_window)"
    by (simp add: process_window_provisional window_field_simps open_window_fields
                  finalization_delay_sec_def)
  finally show ?thesis .
qed

lemma final_window_eq:
  "final_window = process_window ethereum_registry 1300 open_window 1300"
  by (simp add: final_window_def open_window_def run_window_def)

lemma final_window_state: "state final_window = FINAL"
proof -
  have "final_window = process_window ethereum_registry 1300
                         (transition_to_provisional 1300 open_window) 1300"
    unfolding final_window_eq
    using process_window_open[OF open_window_fields(1)] open_window_can_close(2) by simp
  also have "\<dots> = transition_to_final 1300
                     (update_window_finality ethereum_registry 1300
                        (transition_to_provisional 1300 open_window))"
    using refreshed_open_window(1)
    by (simp add: process_window_provisional window_field_simps open_window_fields
                  finalization_delay_sec_def list_all_iff)
  finally have e: "final_window = transition_to_final 1300
                     (update_window_finality ethereum_registry 1300
                        (transition_to_provisional 1300 open_window))" .
  show ?thesis unfolding e by (rule state_transition_to_final)
qed

theorem window_final_only_when_events_final_witness:
  "state final_window = FINAL
   \<and> list_all (\<lambda>e. is_finalized e \<or> invalidated e) (events final_window)
   \<and> state open_window \<noteq> FINAL
   \<and> state (process_window ethereum_registry 1300 open_window 1300) = FINAL
   \<and> tw_window_end open_window + finalization_delay_sec \<le> 1300
   \<and> state provisional_window = PROVISIONAL
   \<and> state (process_window ethereum_registry 500 provisional_window 500) = PROVISIONAL
   \<and> state (process_window ethereum_registry 1300 provisional_window 1300) = FINAL"
proof -
  have f: "state (run_window (new_TimeWindow 0 ''w'' 0 300)
                    [AddEvent offchain_event, Tick ethereum_registry 1300 1300]) = FINAL"
    using final_window_state by (simp add: final_window_def fresh_window_def)
  have a: "list_all (\<lambda>e. is_finalized e \<or> invalidated e) (events final_window)"
    using window_final_only_when_events_final
            [where ?t0.0 = 0 and wid = "''w''" and wstart = 0 and wend = 300
               and ops = "[AddEvent offchain_event, Tick ethereum_registry 1300 1300]",
             THEN conjunct1, rule_format, OF f]
    by (simp add: list_all_iff final_window_def fresh_window_def)
  have o: "state open_window \<noteq> FINAL" by (simp add: open_window_fields)
  have "of": "state (process_window ethereum_registry 1300 open_window 1300) = FINAL"
    using final_window_state by (simp add: final_window_eq)
  have b: "tw_window_end open_window + finalization_delay_sec \<le> 1300"
    using window_final_only_when_events_final
            [where w = open_window and trackers = ethereum_registry and utcnow = 1300
               and current_time = 1300,
             THEN conjunct2, THEN conjunct1, rule_format, OF conjI[OF o "of"]]
    by simp
  have p: "state provisional_window = PROVISIONAL"
    by (simp add: provisional_window_eq window_field_simps)
  have np: "\<not> (tw_window_end provisional_window + finalization_delay_sec \<le> 500
              \<and> (\<forall>e \<in> set (events (update_window_finality ethereum_registry 500
                                        provisional_window)).
                    is_finalized e \<or> invalidated e))"
    by (simp add: provisional_window_eq window_field_simps open_window_fields
                  finalization_delay_sec_def)
  have c: "state (process_window ethereum_registry 500 provisional_window 500) = PROVISIONAL"
    using window_final_only_when_events_final
            [where w = provisional_window and trackers = ethereum_registry and utcnow = 500
               and current_time = 500,
             THEN conjunct2, THEN conjunct2, THEN conjunct1, rule_format, OF conjI[OF p np]]
    by simp
  have yp: "tw_window_end provisional_window + finalization_delay_sec \<le> 1300
            \<and> (\<forall>e \<in> set (events (update_window_finality ethereum_registry 1300
                                      provisional_window)).
                  is_finalized e \<or> invalidated e)"
    by (simp add: provisional_window_eq update_window_finality_def
                  transition_to_provisional_def open_window_eq fresh_window_def
                  new_TimeWindow_def finalization_delay_sec_def
                  offchain_event_def new_RiskEvent_def registry_update_event_finality_def
                  ethereum_registry_def ethereum_tracker_def update_event_finality_def
                  update_offchain_finality_def ethereum_config_def Let_def)
  have d: "state (process_window ethereum_registry 1300 provisional_window 1300) = FINAL"
    using window_final_only_when_events_final
            [where w = provisional_window and trackers = ethereum_registry and utcnow = 1300
               and current_time = 1300,
             THEN conjunct2, THEN conjunct2, THEN conjunct2, rule_format, OF conjI[OF p yp]]
    by simp
  show ?thesis
    using final_window_state a o "of" b p c d by simp
qed
section \<open>Finality refresh\<close>

lemma FinalityTier_value_eq_tier3: "(FinalityTier_value t = FinalityTier_value TIER3) = (t = TIER3)"
  by (cases t) simp_all

lemma update_offchain_finality_iff:
  assumes "\<not> is_finalized e" "finality_tier e \<noteq> FinalityTier_value TIER3"
  shows "is_finalized (update_offchain_finality cfg utcnow e) =
         (finality_tier (update_offchain_finality cfg utcnow e) = FinalityTier_value TIER3)"
  using assms by (simp add: update_offchain_finality_def Let_def)

lemma update_event_finality_iff:
  assumes "\<not> is_finalized e" "finality_tier e \<noteq> FinalityTier_value TIER3"
  shows "is_finalized (update_event_finality tr utcnow e) =
         (finality_tier (update_event_finality tr utcnow e) = FinalityTier_value TIER3)"
proof (cases "block_number e")
  case None
  then show ?thesis using update_offchain_finality_iff[OF assms]
    by (simp add: update_event_finality_def)
next
  case (Some bn)
  show ?thesis
  proof (cases "get_current_block_number tr")
    case None
    then show ?thesis using Some assms by (simp add: update_event_finality_def)
  next
    case head: (Some current_block)
    show ?thesis
    proof (cases "check_block_exists tr bn")
      case None
      then show ?thesis using Some head assms by (simp add: update_event_finality_def Let_def)
    next
      case ex: (Some block_exists)
      show ?thesis
        using Some head ex assms
        by (cases "calculate_finality_tier (chain_config tr) (max 0 (current_block - bn + 1))")
           (simp_all add: update_event_finality_def Let_def)
    qed
  qed
qed

lemmas finality_eval_defs =
  update_event_finality_def ethereum_tracker_def ethereum_config_def onchain_event_def
  new_RiskEvent_def calculate_finality_tier_def Let_def finalized_event_def

text \<open>
  Claim C4 says that after a finality refresh or the creation of a correction event,
  \<open>is_finalized\<close> is true if and only if the tier is TIER3. The reorg handler resets
  \<open>is_finalized\<close> of a correction event and copies the tier of the replacement: the
  correction built from a TIER3 replacement has tier TIER3 and is not finalized. And a
  refresh writes the tier from the observed head and never clears \<open>is_finalized\<close>: an
  event finalized at head 200 and refreshed again at head 110 keeps \<open>is_finalized\<close>
  with tier TIER1.
\<close>

theorem finalized_flag_and_tier_disagree:
  "\<not> is_finalized (snd (create_correction_event Map.empty onchain_event tier3_replacement))
   \<and> finality_tier (snd (create_correction_event Map.empty onchain_event tier3_replacement))
       = FinalityTier_value TIER3
   \<and> is_finalized finalized_event
   \<and> finality_tier finalized_event = FinalityTier_value TIER3
   \<and> is_finalized (update_event_finality (ethereum_tracker (Some 110)) 60 finalized_event)
   \<and> finality_tier (update_event_finality (ethereum_tracker (Some 110)) 60 finalized_event)
       = FinalityTier_value TIER1"
  by (simp add: finality_eval_defs create_correction_event_def tier3_replacement_def)
section \<open>Successive finality refreshes\<close>

lemma tier_value_of_tier:
  "finality_tier e = FinalityTier_value t \<Longrightarrow>
     get_confidence_tier_value e = get_finality_confidence t"
  by (cases t) (simp_all add: get_confidence_tier_value_def tier_map_def)

lemma calculate_finality_tier_mono:
  "c1 \<le> c2 \<Longrightarrow>
     get_finality_confidence (calculate_finality_tier cfg c1)
       \<le> get_finality_confidence (calculate_finality_tier cfg c2)"
  by (simp add: calculate_finality_tier_def)

lemma update_offchain_finality_fields:
  "get_confidence_tier_value (update_offchain_finality cfg utcnow e)
     = (if utcnow - timestamp e \<ge> real_of_int (tier3_time_sec cfg) then 1
        else if utcnow - timestamp e \<ge> real_of_int (tier2_time_sec cfg) then 0.8 else 0.3)"
  "timestamp (update_offchain_finality cfg utcnow e) = timestamp e"
  "block_number (update_offchain_finality cfg utcnow e) = block_number e"
  "invalidated (update_offchain_finality cfg utcnow e) = invalidated e"
  by (simp_all add: update_offchain_finality_def Let_def get_confidence_tier_value_def
                    tier_map_def)

lemma update_event_finality_block_number:
  "block_number (update_event_finality tr utcnow e) = block_number e"
  by (simp add: update_event_finality_def update_offchain_finality_fields Let_def
           split: option.split)

lemma update_event_finality_offchain:
  "block_number e = None \<Longrightarrow>
     update_event_finality tr utcnow e = update_offchain_finality (chain_config tr) utcnow e"
  by (simp add: update_event_finality_def)

lemma update_event_finality_failure:
  "block_number e = Some bn \<Longrightarrow>
   get_current_block_number tr = None \<or> check_block_exists tr bn = None \<Longrightarrow>
     update_event_finality tr utcnow e = e"
  by (auto simp: update_event_finality_def Let_def split: option.split)

lemma update_event_finality_reorg_tier:
  "block_number e = Some bn \<Longrightarrow> get_current_block_number tr = Some h \<Longrightarrow>
   check_block_exists tr bn = Some False \<Longrightarrow>
     finality_tier (update_event_finality tr utcnow e) = finality_tier e
     \<and> invalidated (update_event_finality tr utcnow e)"
  by (simp add: update_event_finality_def Let_def)

lemma update_event_finality_success_tier:
  "block_number e = Some bn \<Longrightarrow> get_current_block_number tr = Some h \<Longrightarrow>
   check_block_exists tr bn = Some True \<Longrightarrow>
     finality_tier (update_event_finality tr utcnow e)
       = FinalityTier_value (calculate_finality_tier (chain_config tr) (max 0 (h - bn + 1)))"
  by (simp add: update_event_finality_def Let_def)

lemma offchain_refresh_mono:
  assumes "block_number e = None" "chain_config tr2 = chain_config tr1" "t1 \<le> t2"
  shows "get_confidence_tier_value (update_event_finality tr1 t1 e)
           \<le> get_confidence_tier_value
                (update_event_finality tr2 t2 (update_event_finality tr1 t1 e))"
proof -
  let ?e1 = "update_offchain_finality (chain_config tr1) t1 e"
  have e1: "update_event_finality tr1 t1 e = ?e1"
    using assms(1) by (rule update_event_finality_offchain)
  have "block_number ?e1 = None" using assms(1) by (simp add: update_offchain_finality_fields)
  then have e2: "update_event_finality tr2 t2 ?e1
                   = update_offchain_finality (chain_config tr1) t2 ?e1"
    using assms(2) by (simp add: update_event_finality_offchain)
  show ?thesis
    unfolding e1 e2 using assms(3) by (simp add: update_offchain_finality_fields)
qed

lemma onchain_refresh_mono:
  assumes bn: "block_number e = Some bn"
      and h1: "get_current_block_number tr1 = Some h1"
      and ex: "check_block_exists tr1 bn = Some True"
      and cfg: "chain_config tr2 = chain_config tr1"
      and h2: "case get_current_block_number tr2 of None \<Rightarrow> True | Some h2 \<Rightarrow> h1 \<le> h2"
  shows "get_confidence_tier_value (update_event_finality tr1 t1 e)
           \<le> get_confidence_tier_value
                (update_event_finality tr2 t2 (update_event_finality tr1 t1 e))"
proof -
  let ?e1 = "update_event_finality tr1 t1 e"
  let ?e2 = "update_event_finality tr2 t2 ?e1"
  have bn1: "block_number ?e1 = Some bn"
    using bn by (simp add: update_event_finality_block_number)
  have t1: "finality_tier ?e1
              = FinalityTier_value (calculate_finality_tier (chain_config tr1) (max 0 (h1 - bn + 1)))"
    using bn h1 ex by (rule update_event_finality_success_tier)
  show ?thesis
  proof (cases "get_current_block_number tr2")
    case None
    then show ?thesis using update_event_finality_failure[OF bn1] by simp
  next
    case head: (Some h)
    then have le: "h1 \<le> h" using h2 by simp
    show ?thesis
    proof (cases "check_block_exists tr2 bn")
      case None
      then show ?thesis using update_event_finality_failure[OF bn1] by simp
    next
      case (Some block_exists)
      show ?thesis
      proof (cases block_exists)
        case True
        have t2: "finality_tier ?e2
                    = FinalityTier_value
                        (calculate_finality_tier (chain_config tr1) (max 0 (h - bn + 1)))"
          using update_event_finality_success_tier[OF bn1 head] Some True cfg by simp
        have "get_finality_confidence
                (calculate_finality_tier (chain_config tr1) (max 0 (h1 - bn + 1)))
              \<le> get_finality_confidence
                   (calculate_finality_tier (chain_config tr1) (max 0 (h - bn + 1)))"
          using le by (intro calculate_finality_tier_mono) simp
        then show ?thesis
          by (simp add: tier_value_of_tier[OF t1] tier_value_of_tier[OF t2])
      next
        case False
        then have "finality_tier ?e2 = finality_tier ?e1"
          using update_event_finality_reorg_tier[OF bn1 head] Some by simp
        then show ?thesis by (simp add: get_confidence_tier_value_def)
      qed
    qed
  qed
qed

lemma update_offchain_finality_idem:
  "update_offchain_finality cfg utcnow (update_offchain_finality cfg utcnow e)
     = update_offchain_finality cfg utcnow e"
  by (simp add: update_offchain_finality_def Let_def)

lemma update_event_finality_idem:
  "update_event_finality tr utcnow (update_event_finality tr utcnow e)
     = update_event_finality tr utcnow e"
proof (cases "block_number e")
  case None
  then show ?thesis
    by (simp add: update_event_finality_offchain update_offchain_finality_fields
                  update_offchain_finality_idem)
next
  case (Some bn)
  show ?thesis
  proof (cases "get_current_block_number tr = None \<or> check_block_exists tr bn = None")
    case True
    then show ?thesis using update_event_finality_failure[OF Some] by simp
  next
    case False
    then obtain h b where hb: "get_current_block_number tr = Some h"
                              "check_block_exists tr bn = Some b" by auto
    show ?thesis
      using Some hb
      by (cases b; cases "calculate_finality_tier (chain_config tr) (max 0 (h - bn + 1))")
         (simp_all add: update_event_finality_def Let_def)
  qed
qed

text \<open>
  Claim C5, amended. The tier of an event (read as its confidence value) does not decrease
  over two successive refreshes when the second observes no less than the first: for an
  off-chain event a clock that has not gone back, for an on-chain event whose first
  refresh found its block a head height that is not lower (a second refresh that fails
  or that finds the block gone leaves the tier as it was). A refresh whose RPC call fails
  returns the event unchanged, and a refresh repeated with the same tracker answers and
  the same clock returns the same event.
\<close>

theorem refresh_tier_non_decreasing_when_head_advances:
  "(block_number e = None \<and> chain_config tr2 = chain_config tr1 \<and> t1 \<le> t2 \<longrightarrow>
      get_confidence_tier_value (update_event_finality tr1 t1 e)
        \<le> get_confidence_tier_value
             (update_event_finality tr2 t2 (update_event_finality tr1 t1 e)))
   \<and> (block_number e = Some bn \<and> get_current_block_number tr1 = Some h1
        \<and> check_block_exists tr1 bn = Some True \<and> chain_config tr2 = chain_config tr1
        \<and> (case get_current_block_number tr2 of None \<Rightarrow> True | Some h2 \<Rightarrow> h1 \<le> h2) \<longrightarrow>
      get_confidence_tier_value (update_event_finality tr1 t1 e)
        \<le> get_confidence_tier_value
             (update_event_finality tr2 t2 (update_event_finality tr1 t1 e)))
   \<and> (block_number e = Some bn
        \<and> (get_current_block_number tr = None \<or> check_block_exists tr bn = None) \<longrightarrow>
      update_event_finality tr utcnow e = e)
   \<and> update_event_finality tr utcnow (update_event_finality tr utcnow e)
       = update_event_finality tr utcnow e"
proof (intro conjI impI)
  assume "block_number e = None \<and> chain_config tr2 = chain_config tr1 \<and> t1 \<le> t2"
  then show "get_confidence_tier_value (update_event_finality tr1 t1 e)
        \<le> get_confidence_tier_value
             (update_event_finality tr2 t2 (update_event_finality tr1 t1 e))"
    using offchain_refresh_mono by blast
next
  assume "block_number e = Some bn \<and> get_current_block_number tr1 = Some h1
        \<and> check_block_exists tr1 bn = Some True \<and> chain_config tr2 = chain_config tr1
        \<and> (case get_current_block_number tr2 of None \<Rightarrow> True | Some h2 \<Rightarrow> h1 \<le> h2)"
  then show "get_confidence_tier_value (update_event_finality tr1 t1 e)
        \<le> get_confidence_tier_value
             (update_event_finality tr2 t2 (update_event_finality tr1 t1 e))"
    using onchain_refresh_mono by blast
next
  assume "block_number e = Some bn
        \<and> (get_current_block_number tr = None \<or> check_block_exists tr bn = None)"
  then show "update_event_finality tr utcnow e = e"
    using update_event_finality_failure by blast
next
  show "update_event_finality tr utcnow (update_event_finality tr utcnow e)
       = update_event_finality tr utcnow e"
    by (rule update_event_finality_idem)
qed

theorem refresh_tier_non_decreasing_when_head_advances_witness:
  "get_confidence_tier_value (update_event_finality (ethereum_tracker None) 400 offchain_event)
     \<le> get_confidence_tier_value
          (update_event_finality (ethereum_tracker None) 800
             (update_event_finality (ethereum_tracker None) 400 offchain_event))
   \<and> get_confidence_tier_value
         (update_event_finality (ethereum_tracker (Some 140)) 50 onchain_event)
     \<le> get_confidence_tier_value
          (update_event_finality (ethereum_tracker (Some 200)) 60
             (update_event_finality (ethereum_tracker (Some 140)) 50 onchain_event))
   \<and> update_event_finality (ethereum_tracker None) 50 onchain_event = onchain_event"
proof -
  have a: "block_number offchain_event = None
           \<and> chain_config (ethereum_tracker None) = chain_config (ethereum_tracker None)
           \<and> (400::real) \<le> 800"
    by (simp add: offchain_event_def new_RiskEvent_def)
  have b: "block_number onchain_event = Some 100
           \<and> get_current_block_number (ethereum_tracker (Some 140)) = Some 140
           \<and> check_block_exists (ethereum_tracker (Some 140)) 100 = Some True
           \<and> chain_config (ethereum_tracker (Some 200)) = chain_config (ethereum_tracker (Some 140))
           \<and> (case get_current_block_number (ethereum_tracker (Some 200)) of
                 None \<Rightarrow> True | Some h2 \<Rightarrow> 140 \<le> h2)"
    by (simp add: onchain_event_def new_RiskEvent_def ethereum_tracker_def)
  have c: "block_number onchain_event = Some 100
           \<and> (get_current_block_number (ethereum_tracker None) = None
                \<or> check_block_exists (ethereum_tracker None) 100 = None)"
    by (simp add: onchain_event_def new_RiskEvent_def ethereum_tracker_def)
  note i1 = refresh_tier_non_decreasing_when_head_advances
              [where e = offchain_event and ?tr1.0 = "ethereum_tracker None"
                 and ?tr2.0 = "ethereum_tracker None" and ?t1.0 = 400 and ?t2.0 = 800,
               THEN conjunct1, rule_format, OF a]
  note i2 = refresh_tier_non_decreasing_when_head_advances
              [where e = onchain_event and bn = 100 and ?h1.0 = 140
                 and ?tr1.0 = "ethereum_tracker (Some 140)"
                 and ?tr2.0 = "ethereum_tracker (Some 200)" and ?t1.0 = 50 and ?t2.0 = 60,
               THEN conjunct2, THEN conjunct1, rule_format, OF b]
  note i3 = refresh_tier_non_decreasing_when_head_advances
              [where e = onchain_event and bn = 100 and tr = "ethereum_tracker None"
                 and utcnow = 50,
               THEN conjunct2, THEN conjunct2, THEN conjunct1, rule_format, OF c]
  show ?thesis by (rule conjI[OF i1 conjI[OF i2 i3]])
qed

text \<open>
  Claim C5 as stated fails: the refresh writes the tier computed from the head height
  it observes. An unfinalized ethereum event at block 100 refreshed at head 140 is at
  TIER2; refreshed again at head 110 it is at TIER1, and it is not invalidated.
\<close>

theorem refresh_downgrades_tier_at_lower_head:
  "finality_tier (update_event_finality (ethereum_tracker (Some 140)) 50 onchain_event)
     = FinalityTier_value TIER2
   \<and> finality_tier
         (update_event_finality (ethereum_tracker (Some 110)) 60
            (update_event_finality (ethereum_tracker (Some 140)) 50 onchain_event))
       = FinalityTier_value TIER1
   \<and> get_confidence_tier_value
         (update_event_finality (ethereum_tracker (Some 110)) 60
            (update_event_finality (ethereum_tracker (Some 140)) 50 onchain_event))
       < get_confidence_tier_value
           (update_event_finality (ethereum_tracker (Some 140)) 50 onchain_event)
   \<and> \<not> invalidated
         (update_event_finality (ethereum_tracker (Some 110)) 60
            (update_event_finality (ethereum_tracker (Some 140)) 50 onchain_event))
   \<and> \<not> is_finalized
         (update_event_finality (ethereum_tracker (Some 140)) 50 onchain_event)"
  by (simp add: update_event_finality_def ethereum_tracker_def ethereum_config_def
                onchain_event_def new_RiskEvent_def calculate_finality_tier_def Let_def
                get_confidence_tier_value_def tier_map_def)
section \<open>Corrections emitted by the reorg handler\<close>

lemma find_replacement_event_matched:
  "\<exists>n \<in> set ns. coin n = coin e \<and> source n = source e
                  \<and> \<bar>timestamp n - timestamp e\<bar> < 60 \<Longrightarrow>
     \<exists>r. find_replacement_event e ns = Some r"
  by (induction ns) auto

lemma find_replacement_event_marked:
  "find_replacement_event (e\<lparr> invalidated := True, reorg_detected_at := t \<rparr>) ns
     = find_replacement_event e ns"
  by (induction ns) simp_all

lemma create_correction_event_fields:
  "fst (create_correction_event versions old_event new_event)
     = versions(event_id old_event \<mapsto>
         (case versions (event_id old_event) of None \<Rightarrow> 1 | Some v \<Rightarrow> v) + 1)"
  "event_id (snd (create_correction_event versions old_event new_event)) = event_id old_event"
  "event_version (snd (create_correction_event versions old_event new_event))
     = (case versions (event_id old_event) of None \<Rightarrow> 1 | Some v \<Rightarrow> v) + 1"
  "is_finalized (snd (create_correction_event versions old_event new_event)) = False"
  "original_block_number (snd (create_correction_event versions old_event new_event))
     = block_number old_event"
  by (simp_all add: create_correction_event_def Let_def new_RiskEvent_def)

lemma handle_reorg_loop_Cons_matched:
  assumes "ns \<noteq> []" "find_replacement_event old_event ns = Some r"
  shows "handle_reorg_loop utcnow (Some ns) versions (old_event # rest) =
           (case handle_reorg_loop utcnow (Some ns)
                   (fst (create_correction_event versions
                           (old_event\<lparr> invalidated := True, reorg_detected_at := Some utcnow \<rparr>) r))
                   rest of
              (versions2, olds, corrections) \<Rightarrow>
                (versions2,
                 old_event\<lparr> invalidated := True, reorg_detected_at := Some utcnow,
                              replacement_event_id := Some (event_id old_event) \<rparr> # olds,
                 snd (create_correction_event versions
                        (old_event\<lparr> invalidated := True, reorg_detected_at := Some utcnow \<rparr>) r)
                   # corrections))"
  using assms
  by (simp add: find_replacement_event_marked create_correction_event_fields(2)
                Let_def split_beta)

lemma handle_reorg_loop_matched:
  assumes "ns \<noteq> []"
      and "\<forall>e \<in> set affected. \<exists>n \<in> set ns. coin n = coin e \<and> source n = source e
                                    \<and> \<bar>timestamp n - timestamp e\<bar> < 60"
      and "distinct (map event_id affected)"
  shows "\<exists>versions' cs.
           handle_reorg_loop utcnow (Some ns) versions affected =
             (versions',
              map (\<lambda>e. e\<lparr> invalidated := True, reorg_detected_at := Some utcnow,
                           replacement_event_id := Some (event_id e) \<rparr>) affected,
              cs)
           \<and> map event_id cs = map event_id affected
           \<and> map event_version cs =
               map (\<lambda>e. (case versions (event_id e) of None \<Rightarrow> 1 | Some v \<Rightarrow> v) + 1) affected
           \<and> list_all (\<lambda>c. \<not> is_finalized c) cs
           \<and> map original_block_number cs = map block_number affected
           \<and> (\<forall>k. k \<notin> event_id ` set affected \<longrightarrow> versions' k = versions k)"
  using assms(2,3)
proof (induction affected arbitrary: versions)
  case Nil
  show ?case by simp
next
  case (Cons old_event rest)
  let ?old1 = "old_event\<lparr> invalidated := True, reorg_detected_at := Some utcnow \<rparr>"
  from Cons.prems(1) obtain r where r: "find_replacement_event old_event ns = Some r"
    using find_replacement_event_matched[of ns old_event] by auto
  let ?v1 = "fst (create_correction_event versions ?old1 r)"
  let ?c = "snd (create_correction_event versions ?old1 r)"
  have rest: "\<forall>e \<in> set rest. \<exists>n \<in> set ns. coin n = coin e \<and> source n = source e
                                    \<and> \<bar>timestamp n - timestamp e\<bar> < 60"
    using Cons.prems(1) by simp
  have dist: "distinct (map event_id rest)" and fresh: "event_id old_event \<notin> event_id ` set rest"
    using Cons.prems(2) by simp_all
  from Cons.IH[OF rest dist, of ?v1] obtain versions' cs where
    loop: "handle_reorg_loop utcnow (Some ns) ?v1 rest =
             (versions',
              map (\<lambda>e. e\<lparr> invalidated := True, reorg_detected_at := Some utcnow,
                           replacement_event_id := Some (event_id e) \<rparr>) rest,
              cs)"
    and ids: "map event_id cs = map event_id rest"
    and vs: "map event_version cs =
               map (\<lambda>e. (case ?v1 (event_id e) of None \<Rightarrow> 1 | Some v \<Rightarrow> v) + 1) rest"
    and fin: "list_all (\<lambda>c. \<not> is_finalized c) cs"
    and obn: "map original_block_number cs = map block_number rest"
    and keep: "\<forall>k. k \<notin> event_id ` set rest \<longrightarrow> versions' k = ?v1 k"
    by blast
  have v1: "?v1 = versions(event_id old_event \<mapsto>
                    (case versions (event_id old_event) of None \<Rightarrow> 1 | Some v \<Rightarrow> v) + 1)"
    by (simp add: create_correction_event_fields(1))
  have vs': "map event_version cs =
               map (\<lambda>e. (case versions (event_id e) of None \<Rightarrow> 1 | Some v \<Rightarrow> v) + 1) rest"
  proof -
    have "?v1 (event_id e) = versions (event_id e)" if "e \<in> set rest" for e
      using that fresh by (auto simp: v1 image_iff)
    then show ?thesis unfolding vs by simp
  qed
  have keep': "\<forall>k. k \<notin> event_id ` set (old_event # rest) \<longrightarrow> versions' k = versions k"
    using keep by (simp add: v1)
  have step: "handle_reorg_loop utcnow (Some ns) versions (old_event # rest) =
                (versions',
                 map (\<lambda>e. e\<lparr> invalidated := True, reorg_detected_at := Some utcnow,
                              replacement_event_id := Some (event_id e) \<rparr>) (old_event # rest),
                 ?c # cs)"
    unfolding handle_reorg_loop_Cons_matched[OF assms(1) r] loop by simp
  have c: "event_id ?c = event_id old_event"
          "event_version ?c = (case versions (event_id old_event) of None \<Rightarrow> 1 | Some v \<Rightarrow> v) + 1"
          "\<not> is_finalized ?c"
          "original_block_number ?c = block_number old_event"
    by (simp_all add: create_correction_event_fields)
  show ?case
    using step ids vs' fin obn keep' c by (intro exI[of _ versions'] exI[of _ "?c # cs"]) simp
qed

lemma history_append_known:
  "chain0 \<in> fst ` set hist \<Longrightarrow> \<exists>hist'. history_append chain0 r hist = Some hist'"
proof (induction hist)
  case Nil
  then show ?case by simp
next
  case (Cons p hist)
  obtain k rs where p: "p = (k, rs)" by (cases p)
  show ?case
  proof (cases "k = chain0")
    case True
    then show ?thesis by (simp add: p)
  next
    case False
    then have "chain0 \<in> fst ` set hist" using Cons.prems by (auto simp: p)
    from Cons.IH[OF this] obtain hist' where "history_append chain0 r hist = Some hist'" ..
    then show ?thesis using False by (simp add: p)
  qed
qed

lemma handle_reorg_matched:
  assumes "chain0 \<in> fst ` set (reorg_history h)"
      and "ns \<noteq> []"
      and "\<forall>e \<in> set affected. \<exists>n \<in> set ns. coin n = coin e \<and> source n = source e
                                    \<and> \<bar>timestamp n - timestamp e\<bar> < 60"
      and "distinct (map event_id affected)"
  shows "\<exists>h' cs.
           handle_reorg h utcnow chain0 affected (Some ns) =
             Inr (h',
                  map (\<lambda>e. e\<lparr> invalidated := True, reorg_detected_at := Some utcnow,
                               replacement_event_id := Some (event_id e) \<rparr>) affected,
                  cs)
           \<and> map event_id cs = map event_id affected
           \<and> map event_version cs =
               map (\<lambda>e. (case event_versions h (event_id e) of None \<Rightarrow> 1 | Some v \<Rightarrow> v) + 1)
                   affected
           \<and> list_all (\<lambda>c. \<not> is_finalized c) cs
           \<and> map original_block_number cs = map block_number affected"
proof -
  from handle_reorg_loop_matched[OF assms(2,3,4), of utcnow "event_versions h"]
  obtain versions' cs where
    loop: "handle_reorg_loop utcnow (Some ns) (event_versions h) affected =
             (versions',
              map (\<lambda>e. e\<lparr> invalidated := True, reorg_detected_at := Some utcnow,
                           replacement_event_id := Some (event_id e) \<rparr>) affected,
              cs)"
    and rest: "map event_id cs = map event_id affected"
       "map event_version cs =
          map (\<lambda>e. (case event_versions h (event_id e) of None \<Rightarrow> 1 | Some v \<Rightarrow> v) + 1)
              affected"
       "list_all (\<lambda>c. \<not> is_finalized c) cs"
       "map original_block_number cs = map block_number affected"
    by blast
  let ?entry = "\<lparr> re_chain = chain0, re_timestamp = utcnow,
              original_block = (case affected of [] \<Rightarrow> Some 0 | e # _ \<Rightarrow> block_number e),
              new_block = (case Some ns of
                             None \<Rightarrow> Some 0
                           | Some [] \<Rightarrow> Some 0
                           | Some (n # _) \<Rightarrow> block_number n),
              depth = length affected,
              affected_events = map event_id affected \<rparr>"
  from history_append_known[OF assms(1), of ?entry]
  obtain hist' where hist: "history_append chain0 ?entry (reorg_history h) = Some hist'" ..
  have "handle_reorg h utcnow chain0 affected (Some ns) =
          Inr (\<lparr> reorg_history = hist', event_versions = versions' \<rparr>,
               map (\<lambda>e. e\<lparr> invalidated := True, reorg_detected_at := Some utcnow,
                            replacement_event_id := Some (event_id e) \<rparr>) affected,
               cs)"
    unfolding handle_reorg_def loop Let_def using hist by simp
  then show ?thesis using rest by blast
qed

text \<open>
  Claim C6, amended. The handler takes the version of a correction from its own counter
  for the event id (1 when it has none), not from the affected event, and it logs the
  reorg under the chain name, which must be a key of its log (ethereum, arbitrum,
  solana). So: for a reorg on a chain the handler knows, with a non-empty replacement
  list in which every affected event has a replacement of the same coin and source less
  than 60 seconds away, with affected events of distinct ids whose versions agree with
  the handler's counter (the counter holds the event's version, or it has no entry and
  the event is at version 1), the handler returns; every affected event is left
  invalidated with \<open>replacement_event_id\<close> set; and there is exactly one correction per
  affected event, in order, with the same \<open>event_id\<close>, \<open>event_version\<close> one more than
  the affected event's, \<open>is_finalized\<close> false and \<open>original_block_number\<close> the block of
  the affected event.
\<close>

theorem handle_reorg_one_correction_per_event:
  assumes "chain0 \<in> fst ` set (reorg_history h)"
      and "ns \<noteq> []"
      and "\<forall>e \<in> set affected. \<exists>n \<in> set ns. coin n = coin e \<and> source n = source e
                                    \<and> \<bar>timestamp n - timestamp e\<bar> < 60"
      and "distinct (map event_id affected)"
      and "\<forall>e \<in> set affected.
             event_versions h (event_id e) = Some (event_version e)
             \<or> (event_versions h (event_id e) = None \<and> event_version e = 1)"
  shows "case handle_reorg h utcnow chain0 affected (Some ns) of
           Inl err \<Rightarrow> False
         | Inr (h', olds, corrections) \<Rightarrow>
             olds = map (\<lambda>e. e\<lparr> invalidated := True, reorg_detected_at := Some utcnow,
                                 replacement_event_id := Some (event_id e) \<rparr>) affected
             \<and> length corrections = length affected
             \<and> map event_id corrections = map event_id affected
             \<and> map event_version corrections = map (\<lambda>e. event_version e + 1) affected
             \<and> list_all (\<lambda>c. \<not> is_finalized c) corrections
             \<and> map original_block_number corrections = map block_number affected"
proof -
  from handle_reorg_matched[OF assms(1-4), of utcnow] obtain h' cs where
    run: "handle_reorg h utcnow chain0 affected (Some ns) =
             Inr (h',
                  map (\<lambda>e. e\<lparr> invalidated := True, reorg_detected_at := Some utcnow,
                               replacement_event_id := Some (event_id e) \<rparr>) affected,
                  cs)"
    and ids: "map event_id cs = map event_id affected"
    and vs: "map event_version cs =
               map (\<lambda>e. (case event_versions h (event_id e) of None \<Rightarrow> 1 | Some v \<Rightarrow> v) + 1)
                   affected"
    and fin: "list_all (\<lambda>c. \<not> is_finalized c) cs"
    and obn: "map original_block_number cs = map block_number affected"
    by blast
  have "(case event_versions h (event_id e) of None \<Rightarrow> 1 | Some v \<Rightarrow> v) = event_version e"
    if "e \<in> set affected" for e
    using assms(5) that by (auto split: option.split)
  then have vs': "map event_version cs = map (\<lambda>e. event_version e + 1) affected"
    unfolding vs by simp
  have len: "length cs = length affected"
    using ids by (metis length_map)
  show ?thesis
    unfolding run using ids vs' fin obn len by simp
qed

theorem handle_reorg_one_correction_per_event_witness:
  "case handle_reorg new_ReorgHandler 30 ''ethereum'' [onchain_event] (Some [tier3_replacement]) of
     Inl err \<Rightarrow> False
   | Inr (h', olds, corrections) \<Rightarrow>
       olds = map (\<lambda>e. e\<lparr> invalidated := True, reorg_detected_at := Some 30,
                           replacement_event_id := Some (event_id e) \<rparr>) [onchain_event]
       \<and> length corrections = length [onchain_event]
       \<and> map event_id corrections = map event_id [onchain_event]
       \<and> map event_version corrections = map (\<lambda>e. event_version e + 1) [onchain_event]
       \<and> list_all (\<lambda>c. \<not> is_finalized c) corrections
       \<and> map original_block_number corrections = map block_number [onchain_event]"
proof -
  have a: "''ethereum'' \<in> fst ` set (reorg_history new_ReorgHandler)"
    by (simp add: new_ReorgHandler_def)
  have b: "[tier3_replacement] \<noteq> []" by simp
  have c: "\<forall>e \<in> set [onchain_event]. \<exists>n \<in> set [tier3_replacement].
             coin n = coin e \<and> source n = source e \<and> \<bar>timestamp n - timestamp e\<bar> < 60"
    by (simp add: onchain_event_def tier3_replacement_def new_RiskEvent_def)
  have d: "distinct (map event_id [onchain_event])" by simp
  have e: "\<forall>e \<in> set [onchain_event].
             event_versions new_ReorgHandler (event_id e) = Some (event_version e)
             \<or> (event_versions new_ReorgHandler (event_id e) = None \<and> event_version e = 1)"
    by (simp add: onchain_event_def new_RiskEvent_def new_ReorgHandler_def)
  show ?thesis
    by (rule handle_reorg_one_correction_per_event[OF a b c d e])
qed

text \<open>
  Claim C6 as stated fails. A handler with no counter for an event at version 2 (a
  correction of an earlier reorg) emits a correction at version 2, not 3; an event
  listed twice among the affected events gets corrections at versions 2 and 3; and a
  reorg on a chain that is not a key of the handler's log raises \<open>KeyError\<close>, so that
  no correction is returned.
\<close>

theorem correction_version_ignores_event_version:
  "(case handle_reorg new_ReorgHandler 30 ''ethereum'' [version2_event]
           (Some [tier3_replacement]) of
      Inl err \<Rightarrow> False
    | Inr (h', olds, corrections) \<Rightarrow>
        map event_version olds = [2] \<and> map event_version corrections = [2])
   \<and> (case handle_reorg new_ReorgHandler 30 ''ethereum'' [onchain_event, onchain_event]
              (Some [tier3_replacement]) of
         Inl err \<Rightarrow> False
       | Inr (h', olds, corrections) \<Rightarrow>
           map event_version olds = [1, 1] \<and> map event_version corrections = [2, 3])
   \<and> handle_reorg new_ReorgHandler 30 ''polygon'' [onchain_event] (Some [tier3_replacement])
       = Inl KeyError"
  by (simp add: handle_reorg_def new_ReorgHandler_def version2_event_def onchain_event_def
                tier3_replacement_def new_RiskEvent_def create_correction_event_def Let_def)
section \<open>The outlier stage\<close>

lemma length_detect_outliers_in_market:
  "length (detect_outliers_in_market market) = length market"
  by (simp add: detect_outliers_in_market_def Let_def)

lemma nth_detect_outliers_in_market:
  "i < length market \<Longrightarrow>
     detect_outliers_in_market market ! i =
       (if length market < 3 then market ! i
        else flag_metric liquidity_depth (map (flag_metric price market) market)
               (flag_metric price market (market ! i)))"
  by (simp add: detect_outliers_in_market_def Let_def)

lemma same_market_refl: "same_market e e"
  by (simp add: same_market_def)

lemma detect_outliers_from_map:
  "all_events = before @ rest \<Longrightarrow>
     detect_outliers_from all_events before rest =
       map (\<lambda>e. if length (filter (same_market e) all_events) < 3 then e
                else flag_metric liquidity_depth
                       (map (flag_metric price (filter (same_market e) all_events))
                            (filter (same_market e) all_events))
                       (flag_metric price (filter (same_market e) all_events) e))
           rest"
proof (induction rest arbitrary: before)
  case Nil
  show ?case by simp
next
  case (Cons e rest)
  let ?M = "filter (same_market e) all_events"
  let ?i = "length (filter (same_market e) before)"
  have M: "?M = filter (same_market e) before @ e # filter (same_market e) rest"
    using Cons.prems by (simp add: same_market_refl)
  have i: "?i < length ?M" unfolding M by simp
  have nth: "?M ! ?i = e" unfolding M by simp
  have tail: "all_events = (before @ [e]) @ rest" using Cons.prems by simp
  show ?case
    using Cons.IH[OF tail] nth_detect_outliers_in_market[OF i] nth by simp
qed

lemma flag_metric_few:
  "length (List.map_filter metric market) < 3 \<Longrightarrow> flag_metric metric market e = e"
  by (simp add: flag_metric_def Let_def)

lemma flag_metric_values:
  assumes "List.map_filter metric market = vs" "3 \<le> length vs" "0 < stdev vs"
  shows "flag_metric metric market e =
           (case metric e of
              None \<Rightarrow> e
            | Some v \<Rightarrow>
                if \<bar>v - mean vs\<bar> / stdev vs > outlier_threshold
                then e\<lparr> is_outlier := True, quality_score := quality_score e * 0.5 \<rparr>
                else e)"
  using assms by (simp add: flag_metric_def Let_def split: option.split)

lemma map_filter_all_None:
  "\<forall>e \<in> set market. metric e = None \<Longrightarrow> List.map_filter metric market = []"
  by (induction market) simp_all

lemma detect_outliers_unscreened:
  assumes "\<forall>e \<in> set evs. price e = None \<and> liquidity_depth e = None"
  shows "detect_outliers evs = evs"
proof -
  have p: "flag_metric price (filter (same_market e) evs) x = x" for e x
    using assms by (intro flag_metric_few) (simp add: map_filter_all_None)
  have l: "flag_metric liquidity_depth (filter (same_market e) evs) x = x" for e x
    using assms by (intro flag_metric_few) (simp add: map_filter_all_None)
  have m: "map (flag_metric price (filter (same_market e) evs)) (filter (same_market e) evs)
             = filter (same_market e) evs" for e
    by (rule map_idI) (rule p)
  have "detect_outliers_from evs [] evs = evs"
    unfolding detect_outliers_from_map[of evs "[]" evs, simplified]
    by (rule map_idI) (simp add: p m l)
  then show ?thesis by (simp add: detect_outliers_def)
qed

lemma spike_values:
  "List.map_filter price volume_spike_events = []"
  "List.map_filter liquidity_depth volume_spike_events = []"
  "List.map_filter price liquidity_spike_events = []"
  "List.map_filter liquidity_depth liquidity_spike_events
     = [1, 1, 1, 1, 1, 1, 1, 1, 1, 1, 1000]"
  by (simp_all add: volume_spike_events_def liquidity_spike_events_def market_event_def
                    new_RiskEvent_def)

lemma spike_stdev:
  "mean [1, 1, 1, 1, 1, 1, 1, 1, 1, 1, 1000] = 1010 / 11"
  "stdev [1, 1, 1, 1, 1, 1, 1, 1, 1, 1, 1000] = sqrt (998001 / 11)"
  by (simp_all add: mean_def stdev_def power2_eq_square)

lemma spike_stdev_bounds:
  "0 < sqrt (998001 / 11 :: real)"
  "sqrt (998001 / 11 :: real) < 3330 / 11"
  "333 / 11 \<le> sqrt (998001 / 11 :: real)"
proof -
  show "0 < sqrt (998001 / 11 :: real)" by simp
  show "sqrt (998001 / 11 :: real) < 3330 / 11"
    by (rule real_less_lsqrt) (simp_all add: power2_eq_square)
  show "333 / 11 \<le> sqrt (998001 / 11 :: real)"
    by (rule real_le_rsqrt) (simp add: power2_eq_square)
qed

lemma liquidity_spike_flags:
  "flag_metric liquidity_depth liquidity_spike_events
     ((market_event t)\<lparr> liquidity_depth := Some 1 \<rparr>)
     = (market_event t)\<lparr> liquidity_depth := Some 1 \<rparr>"
  "flag_metric liquidity_depth liquidity_spike_events
     ((market_event t)\<lparr> liquidity_depth := Some 1000 \<rparr>)
     = (market_event t)\<lparr> liquidity_depth := Some 1000, is_outlier := True,
                           quality_score := 0.5 \<rparr>"
proof -
  let ?s = "sqrt (998001 / 11 :: real)"
  note vals = flag_metric_values[OF spike_values(4), unfolded spike_stdev, OF _ spike_stdev_bounds(1)]
  have quiet: "\<not> 3 < \<bar>1 - 1010 / 11\<bar> / ?s"
    using spike_stdev_bounds(1,3) by (simp add: field_simps)
  have spike: "3 < \<bar>1000 - 1010 / 11\<bar> / ?s"
    using spike_stdev_bounds(1,2) by (simp add: field_simps)
  show "flag_metric liquidity_depth liquidity_spike_events
     ((market_event t)\<lparr> liquidity_depth := Some 1 \<rparr>)
     = (market_event t)\<lparr> liquidity_depth := Some 1 \<rparr>"
    using quiet by (simp add: vals outlier_threshold_def)
  show "flag_metric liquidity_depth liquidity_spike_events
     ((market_event t)\<lparr> liquidity_depth := Some 1000 \<rparr>)
     = (market_event t)\<lparr> liquidity_depth := Some 1000, is_outlier := True,
                           quality_score := 0.5 \<rparr>"
    using spike by (simp add: vals outlier_threshold_def market_event_def new_RiskEvent_def)
qed

lemma spike_same_market:
  "e \<in> set liquidity_spike_events \<Longrightarrow>
     filter (same_market e) liquidity_spike_events = liquidity_spike_events"
  by (auto simp: liquidity_spike_events_def same_market_def market_event_def)

lemma detect_outliers_liquidity_spike:
  "detect_outliers liquidity_spike_events =
     map (\<lambda>t. (market_event t)\<lparr> liquidity_depth := Some 1 \<rparr>)
         [0, 60, 120, 180, 240, 300, 360, 420, 480, 540]
     @ [(market_event 600)\<lparr> liquidity_depth := Some 1000, is_outlier := True,
                             quality_score := 0.5 \<rparr>]"
proof -
  have len: "length liquidity_spike_events = 11"
    by (simp add: liquidity_spike_events_def)
  have p: "flag_metric price liquidity_spike_events x = x" for x
    by (rule flag_metric_few) (simp add: spike_values)
  have m: "map (flag_metric price liquidity_spike_events) liquidity_spike_events
             = liquidity_spike_events"
    by (rule map_idI) (rule p)
  have "detect_outliers liquidity_spike_events
          = map (flag_metric liquidity_depth liquidity_spike_events) liquidity_spike_events"
    unfolding detect_outliers_def
              detect_outliers_from_map[of liquidity_spike_events "[]" liquidity_spike_events,
                                       simplified]
    by (simp add: len spike_same_market p m cong: map_cong)
  also have "\<dots> = map (\<lambda>t. (market_event t)\<lparr> liquidity_depth := Some 1 \<rparr>)
         [0, 60, 120, 180, 240, 300, 360, 420, 480, 540]
     @ [(market_event 600)\<lparr> liquidity_depth := Some 1000, is_outlier := True,
                             quality_score := 0.5 \<rparr>]"
    by (subst (2) liquidity_spike_events_def) (simp add: liquidity_spike_flags)
  finally show ?thesis .
qed

text \<open>
  Claim C8 says that the outlier stage screens every numeric metric (price, liquidity,
  volume, supply change, volatility, sentiment). \<open>_detect_outliers_in_market\<close> screens
  price and liquidity only. Eleven events of one market, ten with volume 1 and one with
  volume 1000 (a z-score of 10 / sqrt 11, above 3), leave the stage as they came: none is
  flagged. The same values in \<open>liquidity_depth\<close> flag the last event and halve its
  quality score.
\<close>

theorem volume_outlier_not_flagged:
  "detect_outliers volume_spike_events = volume_spike_events
   \<and> map is_outlier (detect_outliers volume_spike_events) = replicate 11 False
   \<and> map is_outlier (detect_outliers liquidity_spike_events) = replicate 10 False @ [True]
   \<and> quality_score (last (detect_outliers liquidity_spike_events)) = 0.5"
proof -
  have v: "detect_outliers volume_spike_events = volume_spike_events"
    by (rule detect_outliers_unscreened)
       (simp add: volume_spike_events_def market_event_def new_RiskEvent_def)
  have f: "map is_outlier volume_spike_events = replicate 11 False"
    by (simp add: volume_spike_events_def market_event_def new_RiskEvent_def
                  numeral_eq_Suc)
  have l: "map is_outlier (detect_outliers liquidity_spike_events) = replicate 10 False @ [True]"
    unfolding detect_outliers_liquidity_spike
    by (simp add: market_event_def new_RiskEvent_def numeral_eq_Suc)
  have q: "quality_score (last (detect_outliers liquidity_spike_events)) = 0.5"
    unfolding detect_outliers_liquidity_spike by simp
  show ?thesis using v f l q by simp
qed
section \<open>The range handed to the reorg handler\<close>

lemma forked_fork_point:
  "find_fork_point (block_cache forked_monitor) live_chain 10 = 9"
proof -
  have heights: "rev [max 0 (10 - 100) + 1 .. 10 :: int] = [10, 9, 8, 7, 6, 5, 4, 3, 2, 1]"
    by (simp add: upto_rec1)
  show ?thesis
    unfolding find_fork_point_def heights
    by (simp add: forked_monitor_def live_chain_def block_header_def)
qed

lemma forked_events_in_range:
  "get_events_in_range forked_monitor 9 10
     = [event_at_block ''e9'' 9, event_at_block ''e10'' 10]"
  by (simp add: get_events_in_range_def forked_monitor_def event_at_block_def
                new_RiskEvent_def)

text \<open>
  Claim C9 says that the events handed to the reorg handler are those of the blocks
  above the fork point, and that events anchored at the fork point are not affected.
  \<open>_handle_fork\<close> passes the fork point itself as the lower end of an inclusive range.
  With blocks 9 and 10 cached and block 10 replaced on the live chain, the fork point is
  block 9, whose hash still matches; the event of block 9 is handed to the handler with
  the event of block 10, and both are left invalidated in the event store.
\<close>

theorem fork_point_event_invalidated:
  "find_fork_point (block_cache forked_monitor) live_chain 10 = 9
   \<and> map_option hash (live_chain 9) = map_option hash (map_of (block_cache forked_monitor) 9)
   \<and> get_events_in_range forked_monitor 9 10
       = [event_at_block ''e9'' 9, event_at_block ''e10'' 10]
   \<and> (case handle_fork forked_monitor new_ReorgHandler 50 live_chain 10 of
         Inl err \<Rightarrow> False
       | Inr (m', h', affected) \<Rightarrow>
           affected = [event_at_block ''e9'' 9, event_at_block ''e10'' 10]
           \<and> map event_id (event_store m') = [''e9'', ''e10'']
           \<and> map invalidated (event_store m') = [True, True])"
proof -
  have store: "event_store forked_monitor = [event_at_block ''e9'' 9, event_at_block ''e10'' 10]"
              "bm_chain forked_monitor = ''ethereum''"
    by (simp_all add: forked_monitor_def)
  have run: "handle_reorg new_ReorgHandler 50 ''ethereum''
               [event_at_block ''e9'' 9, event_at_block ''e10'' 10] None
             = Inr (\<lparr> reorg_history =
                        [(''ethereum'',
                          [\<lparr> re_chain = ''ethereum'', re_timestamp = 50,
                              original_block = Some 9, new_block = Some 0, depth = 2,
                              affected_events = [''e9'', ''e10''] \<rparr>]),
                         (''arbitrum'', []), (''solana'', [])],
                      event_versions = Map.empty \<rparr>,
                    [(event_at_block ''e9'' 9)\<lparr> invalidated := True,
                                                reorg_detected_at := Some 50 \<rparr>,
                     (event_at_block ''e10'' 10)\<lparr> invalidated := True,
                                                  reorg_detected_at := Some 50 \<rparr>],
                    [])"
    by (simp add: handle_reorg_def new_ReorgHandler_def event_at_block_def new_RiskEvent_def)
  have sel: "(case block_number (event_at_block eid b) of
                None \<Rightarrow> False
              | Some x \<Rightarrow> 9 \<le> x \<and> x \<le> 10 \<and> chain (event_at_block eid b) = ''ethereum'')
             = (9 \<le> b \<and> b \<le> 10)" for eid b
    by (simp add: event_at_block_def)
  have fork: "case handle_fork forked_monitor new_ReorgHandler 50 live_chain 10 of
         Inl err \<Rightarrow> False
       | Inr (m', h', affected) \<Rightarrow>
           affected = [event_at_block ''e9'' 9, event_at_block ''e10'' 10]
           \<and> map event_id (event_store m') = [''e9'', ''e10'']
           \<and> map invalidated (event_store m') = [True, True]"
    unfolding handle_fork_def forked_fork_point forked_events_in_range Let_def store run
    by (simp add: sel) (simp add: event_at_block_def new_RiskEvent_def)
  have anc: "map_option hash (live_chain 9)
               = map_option hash (map_of (block_cache forked_monitor) 9)"
    by (simp add: live_chain_def forked_monitor_def block_header_def)
  show ?thesis using forked_fork_point anc forked_events_in_range fork by simp
qed
section \<open>The source type of an event\<close>

lemma fold_depends_on_map:
  assumes "map f xs = map f ys" and "\<And>x y. f x = f y \<Longrightarrow> step x = step y"
  shows "fold step xs a = fold step ys a"
  using assms(1)
proof (induction xs arbitrary: ys a)
  case Nil
  then show ?case by simp
next
  case (Cons x xs)
  then obtain y ys' where ys: "ys = y # ys'" "f x = f y" "map f xs = map f ys'"
    by (cases ys) auto
  show ?case using Cons.IH[OF ys(3)] assms(2)[OF ys(2)] by (simp add: ys(1))
qed

lemma present_sources_depends_on_type:
  assumes "map infer_source_type evs = map infer_source_type evs'"
  shows "present_sources evs = present_sources evs'"
  unfolding present_sources_def
  by (rule fold_depends_on_map[OF assms]) simp

lemma calculate_completeness_depends_on_type:
  assumes "map infer_source_type evs = map infer_source_type evs'"
  shows "calculate_completeness evs = calculate_completeness evs'"
proof -
  have "length evs = length evs'" using arg_cong[OF assms, of length] by simp
  then have e: "(evs = []) = (evs' = [])" by (cases evs; cases evs') simp_all
  show ?thesis
    unfolding calculate_completeness_def present_sources_depends_on_type[OF assms] e ..
qed

lemma calculate_finality_weight_depends_on_type:
  assumes "map infer_source_type evs = map infer_source_type evs'"
      and "map get_confidence_tier_value evs = map get_confidence_tier_value evs'"
  shows "calculate_finality_weight evs = calculate_finality_weight evs'"
proof -
  have "length evs = length evs'" using arg_cong[OF assms(1), of length] by simp
  then have e: "(evs = []) = (evs' = [])" by (cases evs; cases evs') simp_all
  have "map (\<lambda>e. (infer_source_type e, get_confidence_tier_value e)) evs
          = map (\<lambda>e. (infer_source_type e, get_confidence_tier_value e)) evs'"
    using assms
  proof (induction evs arbitrary: evs')
    case Nil
    then show ?case by simp
  next
    case (Cons x xs)
    from Cons.prems(1) obtain y ys where ys: "evs' = y # ys" by (cases evs') simp_all
    have "map (\<lambda>e. (infer_source_type e, get_confidence_tier_value e)) xs
            = map (\<lambda>e. (infer_source_type e, get_confidence_tier_value e)) ys"
      using Cons.prems by (intro Cons.IH) (simp_all add: ys)
    then show ?case using Cons.prems by (simp add: ys)
  qed
  then have f: "fold finality_weight_step evs (0, 0) = fold finality_weight_step evs' (0, 0)"
  proof (rule fold_depends_on_map)
    fix x y
    assume "(infer_source_type x, get_confidence_tier_value x)
              = (infer_source_type y, get_confidence_tier_value y)"
    then have "infer_source_type x = infer_source_type y"
              "get_confidence_tier_value x = get_confidence_tier_value y" by simp_all
    then show "finality_weight_step x = finality_weight_step y"
      unfolding finality_weight_step_def by simp
  qed
  show ?thesis unfolding calculate_finality_weight_def f e ..
qed

lemma set_present_sources_fold:
  "set (fold (\<lambda>e acc. case infer_source_type e of
                        None \<Rightarrow> acc
                      | Some s \<Rightarrow> if s = [] then acc else List.insert s acc) evs acc0)
     = set acc0 \<union> {s. s \<noteq> [] \<and> Some s \<in> infer_source_type ` set evs}"
proof (induction evs arbitrary: acc0)
  case Nil
  show ?case by simp
next
  case (Cons e evs)
  show ?case
    by (cases "infer_source_type e") (auto simp: Cons.IH)
qed

lemma distinct_present_sources_fold:
  "distinct acc0 \<Longrightarrow>
   distinct (fold (\<lambda>e acc. case infer_source_type e of
                        None \<Rightarrow> acc
                      | Some s \<Rightarrow> if s = [] then acc else List.insert s acc) evs acc0)"
proof (induction evs arbitrary: acc0)
  case Nil
  then show ?case by simp
next
  case (Cons e evs)
  show ?case
    using Cons.prems by (cases "infer_source_type e") (auto intro: Cons.IH)
qed

text \<open>
  Claim C10, amended. The source type of an event is the name of the first populated
  field in the order price, liquidity, supply, volatility, sentiment; with none of them
  populated it is the source string, and no type at all when the source string is
  empty. The types that count for completeness are the distinct non-empty types of the
  events, and completeness and the finality weight depend on an event only through its
  type (and its tier confidence): an event with several fields populated counts as one
  with its first field alone.
\<close>

theorem source_type_is_first_populated_field:
  "infer_source_type e =
     (case List.find fst
             [(price e \<noteq> None, ''price''), (liquidity_depth e \<noteq> None, ''liquidity''),
              (net_supply_change e \<noteq> None, ''supply''),
              (market_volatility e \<noteq> None, ''volatility''),
              (sentiment_score e \<noteq> None, ''sentiment'')] of
        Some populated \<Rightarrow> Some (snd populated)
      | None \<Rightarrow> if source e = [] then None else Some (source e))
   \<and> set (present_sources evs) = {s. s \<noteq> [] \<and> Some s \<in> infer_source_type ` set evs}
   \<and> distinct (present_sources evs)
   \<and> (map infer_source_type evs = map infer_source_type evs' \<longrightarrow>
        calculate_completeness evs = calculate_completeness evs')
   \<and> (map infer_source_type evs = map infer_source_type evs'
        \<and> map get_confidence_tier_value evs = map get_confidence_tier_value evs' \<longrightarrow>
        calculate_finality_weight evs = calculate_finality_weight evs')"
proof (intro conjI impI)
  show "infer_source_type e =
     (case List.find fst
             [(price e \<noteq> None, ''price''), (liquidity_depth e \<noteq> None, ''liquidity''),
              (net_supply_change e \<noteq> None, ''supply''),
              (market_volatility e \<noteq> None, ''volatility''),
              (sentiment_score e \<noteq> None, ''sentiment'')] of
        Some populated \<Rightarrow> Some (snd populated)
      | None \<Rightarrow> if source e = [] then None else Some (source e))"
    by (simp add: infer_source_type_def)
  show "set (present_sources evs) = {s. s \<noteq> [] \<and> Some s \<in> infer_source_type ` set evs}"
    unfolding present_sources_def set_present_sources_fold by simp
  show "distinct (present_sources evs)"
    unfolding present_sources_def by (rule distinct_present_sources_fold) simp
next
  assume "map infer_source_type evs = map infer_source_type evs'"
  then show "calculate_completeness evs = calculate_completeness evs'"
    by (rule calculate_completeness_depends_on_type)
next
  assume "map infer_source_type evs = map infer_source_type evs'
        \<and> map get_confidence_tier_value evs = map get_confidence_tier_value evs'"
  then show "calculate_finality_weight evs = calculate_finality_weight evs'"
    using calculate_finality_weight_depends_on_type by blast
qed

theorem source_type_is_first_populated_field_witness:
  "infer_source_type multi_field_event = Some ''price''
   \<and> calculate_completeness [multi_field_event] = calculate_completeness [price_only_event]
   \<and> calculate_finality_weight [multi_field_event]
       = calculate_finality_weight [price_only_event]"
proof -
  note inst = source_type_is_first_populated_field
                [where e = multi_field_event and evs = "[multi_field_event]"
                   and evs' = "[price_only_event]"]
  have t: "map infer_source_type [multi_field_event] = map infer_source_type [price_only_event]"
    by (simp add: infer_source_type_def multi_field_event_def price_only_event_def)
  have c: "map get_confidence_tier_value [multi_field_event]
             = map get_confidence_tier_value [price_only_event]"
    by (simp add: get_confidence_tier_value_def multi_field_event_def price_only_event_def
                  new_RiskEvent_def)
  have p: "infer_source_type multi_field_event = Some ''price''"
    using inst[THEN conjunct1] by (simp add: multi_field_event_def)
  note rest = inst[THEN conjunct2, THEN conjunct2, THEN conjunct2]
  show ?thesis
    using p rest[THEN conjunct1, rule_format, OF t]
          rest[THEN conjunct2, rule_format, OF conjI[OF t c]]
    by simp
qed

text \<open>
  Claim C10 as stated fails: an event with none of the five fields populated and an
  empty source string gets no source type, and it adds nothing to the sources present.
\<close>

theorem no_source_type_without_payload_and_source:
  "source (new_RiskEvent ''x'' 0) = []
   \<and> infer_source_type (new_RiskEvent ''x'' 0) = None
   \<and> present_sources [new_RiskEvent ''x'' 0] = []
   \<and> calculate_completeness [new_RiskEvent ''x'' 0] = 0"
  by (simp add: infer_source_type_def new_RiskEvent_def present_sources_def
                calculate_completeness_def)
section \<open>Applying the quality pipeline to its own output\<close>

lemma char_upper_idem: "char_upper (char_upper c) = char_upper c"
proof (cases "97 \<le> (of_char c :: nat) \<and> (of_char c :: nat) \<le> 122")
  case True
  have "((of_char c :: nat) - 32) mod 256 = of_char c - 32"
    using True by (intro mod_less) arith
  then show ?thesis using True by (auto simp add: char_upper_def Let_def)
next
  case False
  then show ?thesis by (auto simp add: char_upper_def Let_def)
qed

lemma char_lower_idem: "char_lower (char_lower c) = char_lower c"
proof (cases "65 \<le> (of_char c :: nat) \<and> (of_char c :: nat) \<le> 90")
  case True
  have "((of_char c :: nat) + 32) mod 256 = of_char c + 32"
    using True by (intro mod_less) arith
  then show ?thesis using True by (auto simp add: char_lower_def Let_def)
next
  case False
  then show ?thesis by (auto simp add: char_lower_def Let_def)
qed

lemma normalize_event_idem: "normalize_event (normalize_event e) = normalize_event e"
  by (cases "price e")
     (simp_all add: normalize_event_def str_upper_def str_lower_def char_upper_idem
                    char_lower_idem price_min_def price_max_def)

lemma normalize_event_flagged:
  "normalize_event (e\<lparr> is_outlier := b, quality_score := q \<rparr>)
     = (normalize_event e)\<lparr> is_outlier := b \<rparr>"
  by (simp add: normalize_event_def)

lemma flag_metric_update:
  "flag_metric metric market e =
     e\<lparr> is_outlier := (is_outlier e \<or> z_score_exceeds metric market e),
        quality_score := quality_score e * (if z_score_exceeds metric market e then 0.5 else 1) \<rparr>"
  by (cases "metric e") (simp_all add: flag_metric_def z_score_exceeds_def Let_def)

lemma flag_metric_metric:
  "price (flag_metric metric market e) = price e"
  "liquidity_depth (flag_metric metric market e) = liquidity_depth e"
  by (simp_all add: flag_metric_update)

lemma map_filter_map_flag:
  "List.map_filter liquidity_depth (map (flag_metric metric market) evs)
     = List.map_filter liquidity_depth evs"
  by (induction evs) (simp_all add: flag_metric_metric split: option.split)

lemma z_score_exceeds_cong:
  "List.map_filter metric market = List.map_filter metric market' \<Longrightarrow> metric e = metric e' \<Longrightarrow>
     z_score_exceeds metric market e = z_score_exceeds metric market' e'"
  by (simp add: z_score_exceeds_def)

lemma apply_no_flags: "apply_flags (False, False) e = e"
  by (simp add: apply_flags_def)

lemma detect_outliers_flags:
  "detect_outliers evs = map (\<lambda>e. apply_flags (outlier_flags evs e) e) evs"
proof (cases "length evs < 3")
  case True
  then show ?thesis
    by (simp add: detect_outliers_def outlier_flags_def apply_no_flags)
next
  case False
  have "(if length (filter (same_market e) evs) < 3 then e
         else flag_metric liquidity_depth
                (map (flag_metric price (filter (same_market e) evs))
                     (filter (same_market e) evs))
                (flag_metric price (filter (same_market e) evs) e))
        = apply_flags (outlier_flags evs e) e" for e
  proof (cases "length (filter (same_market e) evs) < 3")
    case True
    then show ?thesis by (simp add: outlier_flags_def apply_no_flags)
  next
    case big: False
    let ?M = "filter (same_market e) evs"
    have zl: "z_score_exceeds liquidity_depth (map (flag_metric price ?M) ?M)
                (flag_metric price ?M e)
              = z_score_exceeds liquidity_depth ?M e"
      by (rule z_score_exceeds_cong) (simp_all add: map_filter_map_flag flag_metric_metric)
    have "flag_metric liquidity_depth (map (flag_metric price ?M) ?M) (flag_metric price ?M e)
            = apply_flags (z_score_exceeds price ?M e, z_score_exceeds liquidity_depth ?M e) e"
      unfolding flag_metric_update[of liquidity_depth] zl
      by (simp add: flag_metric_update[of price] apply_flags_def)
    then show ?thesis using big False by (simp add: outlier_flags_def Let_def)
  qed
  then have "detect_outliers_from evs [] evs = map (\<lambda>e. apply_flags (outlier_flags evs e) e) evs"
    unfolding detect_outliers_from_map[of evs "[]" evs, simplified] by simp
  then show ?thesis using False by (simp add: detect_outliers_def)
qed

lemma outlier_flags_map:
  assumes "\<And>x. coin (h x) = coin x" "\<And>x. chain (h x) = chain x"
          "\<And>x. price (h x) = price x" "\<And>x. liquidity_depth (h x) = liquidity_depth x"
  shows "outlier_flags (map h evs) (h e) = outlier_flags evs e"
proof -
  have same: "same_market (h e) (h x) = same_market e x" for x
    by (simp add: same_market_def assms)
  have M: "filter (same_market (h e)) (map h evs) = map h (filter (same_market e) evs)"
    by (simp add: filter_map o_def same)
  have vals: "List.map_filter price (map h xs) = List.map_filter price xs"
             "List.map_filter liquidity_depth (map h xs) = List.map_filter liquidity_depth xs"
    for xs
    by (induction xs) (simp_all add: assms split: option.split)
  have z: "z_score_exceeds price (map h xs) (h e) = z_score_exceeds price xs e"
          "z_score_exceeds liquidity_depth (map h xs) (h e)
             = z_score_exceeds liquidity_depth xs e" for xs
    by (rule z_score_exceeds_cong; simp add: vals assms)+
  show ?thesis
    unfolding outlier_flags_def M Let_def by (simp add: z)
qed

lemma deduplicate_loop_dup:
  assumes "case seen (event_signature e) of
             None \<Rightarrow> False
           | Some last_seen \<Rightarrow> timestamp e - last_seen < dedup_window_sec"
  shows "deduplicate_loop seen (e # es) = deduplicate_loop seen es"
  using assms by (simp add: Let_def)

lemma deduplicate_loop_keep:
  assumes "\<not> (case seen (event_signature e) of
                None \<Rightarrow> False
              | Some last_seen \<Rightarrow> timestamp e - last_seen < dedup_window_sec)"
  shows "deduplicate_loop seen (e # es) =
           (fst (deduplicate_loop (seen(event_signature e \<mapsto> timestamp e)) es),
            e # snd (deduplicate_loop (seen(event_signature e \<mapsto> timestamp e)) es))"
  using assms by (simp add: Let_def split_beta)

lemma deduplicate_loop_map:
  assumes "\<And>x. event_signature (h x) = event_signature x" "\<And>x. timestamp (h x) = timestamp x"
  shows "deduplicate_loop seen (map h xs) =
           (fst (deduplicate_loop seen xs), map h (snd (deduplicate_loop seen xs)))"
proof (induction xs arbitrary: seen)
  case Nil
  show ?case by simp
next
  case (Cons x xs)
  let ?dup = "case seen (event_signature x) of
                None \<Rightarrow> False
              | Some last_seen \<Rightarrow> timestamp x - last_seen < dedup_window_sec"
  show ?case
  proof (cases ?dup)
    case True
    then have "case seen (event_signature (h x)) of
                 None \<Rightarrow> False
               | Some last_seen \<Rightarrow> timestamp (h x) - last_seen < dedup_window_sec"
      by (simp add: assms cong: option.case_cong)
    from deduplicate_loop_dup[where seen = seen and e = "h x", OF this]
         deduplicate_loop_dup[where seen = seen and e = x, OF True] Cons.IH[of seen]
    show ?thesis by (simp only: list.map)
  next
    case False
    then have "\<not> (case seen (event_signature (h x)) of
                 None \<Rightarrow> False
               | Some last_seen \<Rightarrow> timestamp (h x) - last_seen < dedup_window_sec)"
      by (simp add: assms cong: option.case_cong)
    note kh = deduplicate_loop_keep[where seen = seen and e = "h x", OF this]
    have ih: "deduplicate_loop (seen(event_signature x \<mapsto> timestamp x)) (map h xs) =
                (fst (deduplicate_loop (seen(event_signature x \<mapsto> timestamp x)) xs),
                 map h (snd (deduplicate_loop (seen(event_signature x \<mapsto> timestamp x)) xs)))"
      by (rule Cons.IH)
    show ?thesis
      unfolding list.map kh assms ih fst_conv snd_conv
                deduplicate_loop_keep[where seen = seen and e = x, OF False] ..
  qed
qed

lemma deduplicate_loop_kept_again:
  "T \<subseteq>\<^sub>m S \<Longrightarrow>
     snd (deduplicate_loop T (snd (deduplicate_loop S xs))) = snd (deduplicate_loop S xs)"
proof (induction xs arbitrary: S T)
  case Nil
  show ?case by simp
next
  case (Cons x xs)
  let ?sig = "event_signature x"
  let ?dup = "\<lambda>seen. case seen ?sig of
                        None \<Rightarrow> False
                      | Some last_seen \<Rightarrow> timestamp x - last_seen < dedup_window_sec"
  show ?case
  proof (cases "?dup S")
    case True
    show ?thesis
      unfolding deduplicate_loop_dup[where seen = S and e = x, OF True]
      by (rule Cons.IH[OF Cons.prems])
  next
    case False
    have T: "\<not> ?dup T"
    proof (cases "T ?sig")
      case None
      then show ?thesis by simp
    next
      case (Some t)
      then have "S ?sig = Some t" using Cons.prems by (auto simp: map_le_def dom_def)
      then show ?thesis using False Some by simp
    qed
    have le: "T(?sig \<mapsto> timestamp x) \<subseteq>\<^sub>m S(?sig \<mapsto> timestamp x)"
      using Cons.prems by (auto simp: map_le_def)
    show ?thesis
      unfolding deduplicate_loop_keep[where seen = S and e = x, OF False] snd_conv
                deduplicate_loop_keep[where seen = T and e = x, OF T] Cons.IH[OF le] ..
  qed
qed

lemma deduplicate_loop_subset: "set (snd (deduplicate_loop seen xs)) \<subseteq> set xs"
proof (induction xs arbitrary: seen)
  case Nil
  show ?case by simp
next
  case (Cons x xs)
  let ?dup = "case seen (event_signature x) of
                None \<Rightarrow> False
              | Some last_seen \<Rightarrow> timestamp x - last_seen < dedup_window_sec"
  show ?case
  proof (cases ?dup)
    case True
    show ?thesis
      unfolding deduplicate_loop_dup[where seen = seen and e = x, OF True]
      using Cons.IH[of seen] by auto
  next
    case False
    show ?thesis
    proof -
      have ih: "set (snd (deduplicate_loop (seen(event_signature x \<mapsto> timestamp x)) xs))
                  \<subseteq> set xs"
        by (rule Cons.IH)
      show ?thesis
        unfolding deduplicate_loop_keep[where seen = seen and e = x, OF False] snd_conv
        using ih by auto
    qed
  qed
qed

lemma event_signature_flagged:
  "event_signature (e\<lparr> is_outlier := b \<rparr>) = event_signature e"
  by (simp add: event_signature_def)

lemma apply_flags_flagged:
  "apply_flags flags (e\<lparr> is_outlier := (is_outlier e \<or> fst flags \<or> snd flags) \<rparr>)
     = apply_flags flags e"
  by (simp add: apply_flags_def)

lemma normalize_apply_flags:
  assumes "normalize_event e = e"
  shows "normalize_event (apply_flags flags e)
           = e\<lparr> is_outlier := (is_outlier e \<or> fst flags \<or> snd flags) \<rparr>"
  unfolding apply_flags_def normalize_event_flagged assms ..

lemma detect_outliers_again:
  assumes "\<forall>e \<in> set ks. normalize_event e = e"
  shows "detect_outliers (normalize_events (detect_outliers ks)) = detect_outliers ks"
proof -
  let ?h = "\<lambda>e. e\<lparr> is_outlier := (is_outlier e \<or> fst (outlier_flags ks e)
                                                \<or> snd (outlier_flags ks e)) \<rparr>"
  have norm: "normalize_events (detect_outliers ks) = map ?h ks"
    unfolding detect_outliers_flags normalize_events_def map_map o_def
    using assms by (intro map_cong refl) (simp add: normalize_apply_flags)
  have flags: "outlier_flags (map ?h ks) (?h e) = outlier_flags ks e" for e
    by (rule outlier_flags_map) simp_all
  have "detect_outliers (map ?h ks) = map (\<lambda>e. apply_flags (outlier_flags ks e) e) ks"
    unfolding detect_outliers_flags[of "map ?h ks"] map_map o_def flags
    by (simp add: apply_flags_flagged)
  then show ?thesis unfolding norm by (simp add: detect_outliers_flags[of ks])
qed

lemma deduplicate_events_fresh:
  "deduplicate_events utcnow Map.empty evs = deduplicate_loop Map.empty evs"
  by (simp add: deduplicate_events_def Let_def)

lemma pipeline_again_on_kept:
  assumes norm: "\<forall>e \<in> set ks. normalize_event e = e"
      and kept: "snd (deduplicate_loop Map.empty ks) = ks"
  shows "snd (process_events utcnow' Map.empty (detect_outliers ks)) = detect_outliers ks"
proof (cases "ks = []")
  case True
  then show ?thesis by (simp add: detect_outliers_def process_events_def)
next
  case False
  let ?h = "\<lambda>e. e\<lparr> is_outlier := (is_outlier e \<or> fst (outlier_flags ks e)
                                                \<or> snd (outlier_flags ks e)) \<rparr>"
  have ne: "detect_outliers ks \<noteq> []"
    using False by (simp add: detect_outliers_flags)
  have n: "normalize_events (detect_outliers ks) = map ?h ks"
    unfolding detect_outliers_flags normalize_events_def map_map o_def
    using norm by (intro map_cong refl) (simp add: normalize_apply_flags)
  have d: "snd (deduplicate_loop Map.empty (map ?h ks)) = map ?h ks"
    by (subst deduplicate_loop_map) (simp_all add: event_signature_flagged kept)
  have "snd (process_events utcnow' Map.empty (detect_outliers ks))
          = detect_outliers (snd (deduplicate_loop Map.empty
                                    (normalize_events (detect_outliers ks))))"
    using ne by (simp add: process_events_def deduplicate_events_fresh split_beta Let_def)
  also have "\<dots> = detect_outliers (normalize_events (detect_outliers ks))"
    unfolding n d ..
  also have "\<dots> = detect_outliers ks"
    by (rule detect_outliers_again[OF norm])
  finally show ?thesis .
qed

lemma deduplicate_loop_entries_grow:
  "seen sig = Some t \<Longrightarrow>
     \<exists>t'. fst (deduplicate_loop seen xs) sig = Some t' \<and> t \<le> t'"
proof (induction xs arbitrary: seen t)
  case Nil
  then show ?case by simp
next
  case (Cons x xs)
  let ?dup = "case seen (event_signature x) of
                None \<Rightarrow> False
              | Some last_seen \<Rightarrow> timestamp x - last_seen < dedup_window_sec"
  show ?case
  proof (cases ?dup)
    case True
    show ?thesis
      unfolding deduplicate_loop_dup[where seen = seen and e = x, OF True]
      by (rule Cons.IH[where seen = seen and t = t, OF Cons.prems])
  next
    case False
    let ?seen1 = "seen(event_signature x \<mapsto> timestamp x)"
    have "\<exists>t1. ?seen1 sig = Some t1 \<and> t \<le> t1"
    proof (cases "sig = event_signature x")
      case True
      then have "\<not> timestamp x - t < dedup_window_sec" using False Cons.prems by simp
      then show ?thesis using True by (simp add: dedup_window_sec_def)
    next
      case False
      then show ?thesis using Cons.prems by simp
    qed
    then obtain t1 where t1: "?seen1 sig = Some t1" "t \<le> t1" by blast
    from Cons.IH[where seen = "?seen1" and t = t1, OF t1(1)] obtain t' where
      "fst (deduplicate_loop ?seen1 xs) sig = Some t'" "t1 \<le> t'" by blast
    then show ?thesis
      unfolding deduplicate_loop_keep[where seen = seen and e = x, OF False] fst_conv
      using t1(2) by auto
  qed
qed

lemma deduplicate_loop_kept_recorded:
  "e \<in> set (snd (deduplicate_loop seen xs)) \<Longrightarrow>
     \<exists>t. fst (deduplicate_loop seen xs) (event_signature e) = Some t \<and> timestamp e \<le> t"
proof (induction xs arbitrary: seen)
  case Nil
  then show ?case by simp
next
  case (Cons x xs)
  let ?dup = "case seen (event_signature x) of
                None \<Rightarrow> False
              | Some last_seen \<Rightarrow> timestamp x - last_seen < dedup_window_sec"
  show ?case
  proof (cases ?dup)
    case True
    show ?thesis
      using Cons.prems
      unfolding deduplicate_loop_dup[where seen = seen and e = x, OF True]
      by (rule Cons.IH)
  next
    case False
    let ?seen1 = "seen(event_signature x \<mapsto> timestamp x)"
    note step = deduplicate_loop_keep[where seen = seen and e = x, OF False]
    from Cons.prems have "e = x \<or> e \<in> set (snd (deduplicate_loop ?seen1 xs))"
      unfolding step snd_conv by simp
    then show ?thesis
    proof
      assume "e = x"
      then have "?seen1 (event_signature e) = Some (timestamp e)" by simp
      from deduplicate_loop_entries_grow
             [where seen = "?seen1" and sig = "event_signature e" and t = "timestamp e"
                and xs = xs, OF this]
      show ?thesis
        unfolding step fst_conv .
    next
      assume "e \<in> set (snd (deduplicate_loop ?seen1 xs))"
      from Cons.IH[OF this] show ?thesis unfolding step fst_conv .
    qed
  qed
qed

lemma deduplicate_loop_all_dup:
  "\<forall>e \<in> set xs. case seen (event_signature e) of
                      None \<Rightarrow> False
                    | Some last_seen \<Rightarrow> timestamp e - last_seen < dedup_window_sec \<Longrightarrow>
     deduplicate_loop seen xs = Pair seen []"
proof (induction xs)
  case Nil
  show ?case by simp
next
  case (Cons x xs)
  have d: "case seen (event_signature x) of
             None \<Rightarrow> False
           | Some last_seen \<Rightarrow> timestamp x - last_seen < dedup_window_sec"
    using Cons.prems by simp
  show ?case
    unfolding deduplicate_loop_dup[where seen = seen and e = x, OF d]
    using Cons.prems by (intro Cons.IH) simp
qed

lemma pipeline_again_carried:
  assumes norm: "\<forall>e \<in> set ks. normalize_event e = e"
      and rec: "\<forall>e \<in> set ks. \<exists>t. seen' (event_signature e) = Some t \<and> timestamp e \<le> t"
      and recent: "\<forall>e \<in> set ks. utcnow - dedup_window_sec < timestamp e"
  shows "snd (process_events utcnow seen' (detect_outliers ks)) = []"
proof (cases "ks = []")
  case True
  then show ?thesis by (simp add: detect_outliers_def process_events_def)
next
  case False
  let ?h = "\<lambda>e. e\<lparr> is_outlier := (is_outlier e \<or> fst (outlier_flags ks e)
                                                \<or> snd (outlier_flags ks e)) \<rparr>"
  let ?seen1 = "\<lambda>sig. case seen' sig of
                         None \<Rightarrow> None
                       | Some ts \<Rightarrow> if ts > utcnow - dedup_window_sec then Some ts else None"
  have ne: "detect_outliers ks \<noteq> []"
    using False by (simp add: detect_outliers_flags)
  have n: "normalize_events (detect_outliers ks) = map ?h ks"
    unfolding detect_outliers_flags normalize_events_def map_map o_def
    using norm by (intro map_cong refl) (simp add: normalize_apply_flags)
  have dup: "case ?seen1 (event_signature e) of
               None \<Rightarrow> False
             | Some last_seen \<Rightarrow> timestamp e - last_seen < dedup_window_sec"
    if "e \<in> set ks" for e
  proof -
    from rec that obtain t where t: "seen' (event_signature e) = Some t" "timestamp e \<le> t"
      by blast
    have "utcnow - dedup_window_sec < t" using recent that t(2) by force
    then show ?thesis using t by (simp add: dedup_window_sec_def)
  qed
  have "deduplicate_loop ?seen1 ks = Pair ?seen1 []"
    by (rule deduplicate_loop_all_dup) (use dup in blast)
  then have d: "snd (deduplicate_loop ?seen1 (map ?h ks)) = []"
    by (subst deduplicate_loop_map) (simp_all add: event_signature_flagged)
  have "snd (process_events utcnow seen' (detect_outliers ks))
          = detect_outliers (snd (deduplicate_loop ?seen1
                                    (normalize_events (detect_outliers ks))))"
    using ne by (simp add: process_events_def deduplicate_events_def split_beta Let_def)
  also have "\<dots> = []"
    unfolding n d by (simp add: detect_outliers_def)
  finally show ?thesis .
qed

lemma pipeline_event_first_pass:
  "process_events 100 Map.empty [pipeline_event]
     = ([event_signature pipeline_event \<mapsto> 100], [pipeline_event])"
proof -
  have n: "normalize_event pipeline_event = pipeline_event"
    by (simp add: normalize_event_def pipeline_event_def new_RiskEvent_def str_upper_def
                  str_lower_def char_upper_def char_lower_def price_min_def price_max_def)
  show ?thesis
    by (simp add: process_events_def normalize_events_def n deduplicate_events_fresh
                  detect_outliers_def)
       (simp add: pipeline_event_def new_RiskEvent_def)
qed

text \<open>
  Claim C7, amended. With the deduplication state reset (empty) before the second
  application, the pipeline applied to its own output returns that output, whatever the
  batch, the first deduplication state and the two clocks. With the deduplication state
  carried over and the clock unchanged, an output whose events are all stamped within
  the deduplication window of the clock is dropped whole: every event is a duplicate of
  itself.
\<close>

theorem pipeline_idempotent_with_fresh_dedup_state:
  "snd (process_events utcnow' Map.empty (snd (process_events utcnow seen evs)))
     = snd (process_events utcnow seen evs)
   \<and> ((\<forall>e \<in> set (snd (process_events utcnow seen evs)).
          utcnow - dedup_window_sec < timestamp e) \<longrightarrow>
        snd (process_events utcnow (fst (process_events utcnow seen evs))
                            (snd (process_events utcnow seen evs))) = [])"
proof (cases "evs = []")
  case True
  then show ?thesis by (simp add: process_events_def)
next
  case False
  let ?seen1 = "\<lambda>sig. case seen sig of
                         None \<Rightarrow> None
                       | Some ts \<Rightarrow> if ts > utcnow - dedup_window_sec then Some ts else None"
  let ?ks = "snd (deduplicate_loop ?seen1 (normalize_events evs))"
  let ?seen' = "fst (deduplicate_loop ?seen1 (normalize_events evs))"
  have out: "snd (process_events utcnow seen evs) = detect_outliers ?ks"
            "fst (process_events utcnow seen evs) = ?seen'"
    using False by (simp_all add: process_events_def deduplicate_events_def split_beta Let_def)
  have "set ?ks \<subseteq> set (normalize_events evs)" by (rule deduplicate_loop_subset)
  then have norm: "\<forall>e \<in> set ?ks. normalize_event e = e"
    by (auto simp: normalize_events_def normalize_event_idem)
  have kept: "snd (deduplicate_loop Map.empty ?ks) = ?ks"
    by (rule deduplicate_loop_kept_again) simp
  have fresh: "snd (process_events utcnow' Map.empty (detect_outliers ?ks)) = detect_outliers ?ks"
    by (rule pipeline_again_on_kept[OF norm kept])
  have rec: "\<forall>e \<in> set ?ks. \<exists>t. ?seen' (event_signature e) = Some t \<and> timestamp e \<le> t"
    using deduplicate_loop_kept_recorded by blast
  have carried: "snd (process_events utcnow ?seen' (detect_outliers ?ks)) = []"
    if "\<forall>e \<in> set (detect_outliers ?ks). utcnow - dedup_window_sec < timestamp e"
  proof -
    have "\<forall>e \<in> set ?ks. utcnow - dedup_window_sec < timestamp e"
      using that by (simp add: detect_outliers_flags apply_flags_def)
    then show ?thesis by (rule pipeline_again_carried[OF norm rec])
  qed
  show ?thesis unfolding out using fresh carried by blast
qed

theorem pipeline_idempotent_with_fresh_dedup_state_witness:
  "snd (process_events 200 Map.empty (snd (process_events 100 Map.empty [pipeline_event])))
     = snd (process_events 100 Map.empty [pipeline_event])
   \<and> list_all (\<lambda>e. 100 - dedup_window_sec < timestamp e)
        (snd (process_events 100 Map.empty [pipeline_event]))
   \<and> snd (process_events 100 (fst (process_events 100 Map.empty [pipeline_event]))
                          (snd (process_events 100 Map.empty [pipeline_event]))) = []"
proof -
  note inst = pipeline_idempotent_with_fresh_dedup_state
                [where utcnow = 100 and utcnow' = 200 and seen = Map.empty
                   and evs = "[pipeline_event]"]
  have r: "\<forall>e \<in> set (snd (process_events 100 Map.empty [pipeline_event])).
             100 - dedup_window_sec < timestamp e"
    unfolding pipeline_event_first_pass snd_conv
    by (simp add: dedup_window_sec_def pipeline_event_def new_RiskEvent_def)
  show ?thesis
    using inst[THEN conjunct1] r inst[THEN conjunct2, THEN mp, OF r]
    by (simp add: list_all_iff)
qed

text \<open>
  Claim C7 as stated fails. One event stamped at the clock passes the pipeline; applied
  again to this output, with the same clock and the deduplication state the first
  application left, the pipeline returns the empty list.
\<close>

theorem pipeline_drops_own_output:
  "snd (process_events 100 Map.empty [pipeline_event]) = [pipeline_event]
   \<and> snd (process_events 100 (fst (process_events 100 Map.empty [pipeline_event]))
                          (snd (process_events 100 Map.empty [pipeline_event]))) = []"
proof -
  have n: "normalize_event pipeline_event = pipeline_event"
    by (simp add: normalize_event_def pipeline_event_def new_RiskEvent_def str_upper_def
                  str_lower_def char_upper_def char_lower_def price_min_def price_max_def)
  have second: "snd (process_events 100 [event_signature pipeline_event \<mapsto> 100]
                       [pipeline_event]) = []"
    by (simp add: process_events_def normalize_events_def n deduplicate_events_def
                  dedup_window_sec_def detect_outliers_def Let_def)
       (simp add: pipeline_event_def new_RiskEvent_def)
  show ?thesis unfolding pipeline_event_first_pass fst_conv snd_conv using second by simp
qed

end
